theory Spec2Isabelle
  imports Complex_Main
begin

section \<open>JavaScript numbers\<close>

text \<open>
  A TypeScript \<open>number\<close> is a finite value, one of the two infinities, or NaN. Finite
  values are modelled as reals, and \<open>+\<close>, \<open>-\<close>, \<open>*\<close> and \<open>/\<close> on them are the exact
  operations; \<open>rounded\<close> (below) rounds a result to the nearest double. It is applied
  to every operation of \<open>TerrainManager.gatherResources\<close>, where the test for exhaustion
  depends on the rounding; the other functions compute without rounding. The sign of
  zero is not modelled. The non-finite values are kept, because the code can produce
  them (\<open>0 / 0\<close>, \<open>movementCost: Infinity\<close>) and comparisons against NaN are false.
\<close>

datatype jsnum = Fin real | PInf | NInf | NaN

fun isFinite :: "jsnum \<Rightarrow> bool" where
  "isFinite (Fin a) = True"
| "isFinite PInf = False"
| "isFinite NInf = False"
| "isFinite NaN = False"

text \<open>Division: a finite value over zero is an infinity, zero over zero is NaN.\<close>

fun jsDivide :: "jsnum \<Rightarrow> jsnum \<Rightarrow> jsnum" where
  "jsDivide (Fin a) (Fin b) =
     (if b \<noteq> 0 then Fin (a / b)
      else if a = 0 then NaN else if 0 < a then PInf else NInf)"
| "jsDivide NaN b = NaN"
| "jsDivide a NaN = NaN"
| "jsDivide (Fin a) PInf = Fin 0"
| "jsDivide (Fin a) NInf = Fin 0"
| "jsDivide PInf (Fin b) = (if 0 \<le> b then PInf else NInf)"
| "jsDivide NInf (Fin b) = (if 0 \<le> b then NInf else PInf)"
| "jsDivide PInf PInf = NaN"
| "jsDivide PInf NInf = NaN"
| "jsDivide NInf PInf = NaN"
| "jsDivide NInf NInf = NaN"

instantiation jsnum :: "{plus, minus, times, inverse, ord}"
begin

fun plus_jsnum :: "jsnum \<Rightarrow> jsnum \<Rightarrow> jsnum" where
  "plus_jsnum (Fin a) (Fin b) = Fin (a + b)"
| "plus_jsnum NaN b = NaN"
| "plus_jsnum a NaN = NaN"
| "plus_jsnum PInf NInf = NaN"
| "plus_jsnum NInf PInf = NaN"
| "plus_jsnum PInf b = PInf"
| "plus_jsnum a PInf = PInf"
| "plus_jsnum NInf b = NInf"
| "plus_jsnum a NInf = NInf"

fun minus_jsnum :: "jsnum \<Rightarrow> jsnum \<Rightarrow> jsnum" where
  "minus_jsnum (Fin a) (Fin b) = Fin (a - b)"
| "minus_jsnum NaN b = NaN"
| "minus_jsnum a NaN = NaN"
| "minus_jsnum PInf PInf = NaN"
| "minus_jsnum NInf NInf = NaN"
| "minus_jsnum PInf b = PInf"
| "minus_jsnum a NInf = PInf"
| "minus_jsnum NInf b = NInf"
| "minus_jsnum a PInf = NInf"

fun times_jsnum :: "jsnum \<Rightarrow> jsnum \<Rightarrow> jsnum" where
  "times_jsnum (Fin a) (Fin b) = Fin (a * b)"
| "times_jsnum NaN b = NaN"
| "times_jsnum a NaN = NaN"
| "times_jsnum (Fin a) PInf = (if a = 0 then NaN else if 0 < a then PInf else NInf)"
| "times_jsnum (Fin a) NInf = (if a = 0 then NaN else if 0 < a then NInf else PInf)"
| "times_jsnum PInf (Fin b) = (if b = 0 then NaN else if 0 < b then PInf else NInf)"
| "times_jsnum NInf (Fin b) = (if b = 0 then NaN else if 0 < b then NInf else PInf)"
| "times_jsnum PInf PInf = PInf"
| "times_jsnum PInf NInf = NInf"
| "times_jsnum NInf PInf = NInf"
| "times_jsnum NInf NInf = PInf"

definition divide_jsnum :: "jsnum \<Rightarrow> jsnum \<Rightarrow> jsnum" where
  "divide_jsnum = jsDivide"

definition inverse_jsnum :: "jsnum \<Rightarrow> jsnum" where
  "inverse_jsnum a = jsDivide (Fin 1) a"

fun less_jsnum :: "jsnum \<Rightarrow> jsnum \<Rightarrow> bool" where
  "less_jsnum (Fin a) (Fin b) = (a < b)"
| "less_jsnum NaN b = False"
| "less_jsnum a NaN = False"
| "less_jsnum PInf b = False"
| "less_jsnum a NInf = False"
| "less_jsnum a PInf = True"
| "less_jsnum NInf b = True"

fun less_eq_jsnum :: "jsnum \<Rightarrow> jsnum \<Rightarrow> bool" where
  "less_eq_jsnum (Fin a) (Fin b) = (a \<le> b)"
| "less_eq_jsnum NaN b = False"
| "less_eq_jsnum a NaN = False"
| "less_eq_jsnum PInf PInf = True"
| "less_eq_jsnum NInf NInf = True"
| "less_eq_jsnum PInf b = False"
| "less_eq_jsnum a NInf = False"
| "less_eq_jsnum a PInf = True"
| "less_eq_jsnum NInf b = True"

instance ..

end

text \<open>\<open>a === b\<close> on numbers: NaN equals nothing, itself included.\<close>

definition strictEq :: "jsnum \<Rightarrow> jsnum \<Rightarrow> bool" where
  "strictEq a b = (a \<noteq> NaN \<and> a = b)"

text \<open>\<open>Math.sqrt\<close>, \<open>Math.pow(a, 2)\<close>, \<open>Math.min\<close>, \<open>Math.max\<close>, \<open>Math.floor\<close>,
  \<open>Math.cos\<close>, \<open>Math.sin\<close>.\<close>

fun Math_sqrt :: "jsnum \<Rightarrow> jsnum" where
  "Math_sqrt (Fin a) = (if a < 0 then NaN else Fin (sqrt a))"
| "Math_sqrt PInf = PInf"
| "Math_sqrt NInf = NaN"
| "Math_sqrt NaN = NaN"

definition Math_pow2 :: "jsnum \<Rightarrow> jsnum" where
  "Math_pow2 a = a * a"

fun Math_min :: "jsnum \<Rightarrow> jsnum \<Rightarrow> jsnum" where
  "Math_min NaN b = NaN"
| "Math_min a NaN = NaN"
| "Math_min a b = (if a < b then a else b)"

fun Math_max :: "jsnum \<Rightarrow> jsnum \<Rightarrow> jsnum" where
  "Math_max NaN b = NaN"
| "Math_max a NaN = NaN"
| "Math_max a b = (if a < b then b else a)"

fun Math_floor :: "jsnum \<Rightarrow> jsnum" where
  "Math_floor (Fin a) = Fin (of_int \<lfloor>a\<rfloor>)"
| "Math_floor a = a"

fun Math_cos :: "jsnum \<Rightarrow> jsnum" where
  "Math_cos (Fin a) = Fin (cos a)"
| "Math_cos a = NaN"

fun Math_sin :: "jsnum \<Rightarrow> jsnum" where
  "Math_sin (Fin a) = Fin (sin a)"
| "Math_sin a = NaN"

text \<open>An array length or loop index as a number.\<close>

definition num :: "nat \<Rightarrow> jsnum" where
  "num n = Fin (real n)"

subsection \<open>Rounding to doubles\<close>

text \<open>
  A double has 53 significant bits and an exponent from \<open>-1022\<close> to \<open>1023\<close>.
  \<open>binade x\<close> is the exponent \<open>e\<close> of the doubles next to \<open>x\<close>: \<open>2^e \<le> \<bar>x\<bar> < 2^(e+1)\<close>,
  kept within that range (below \<open>2^-1022\<close> the doubles are the subnormal ones, with the
  spacing of the lowest exponent). The doubles there are the multiples of
  \<open>2^(e - 52)\<close>; \<open>roundDouble x\<close> is the nearest of them, the one with the even multiple in
  a tie, and an infinity when that is \<open>2^1024\<close> or more. \<open>rounded\<close> is the rounding of a
  result of \<open>+\<close>, \<open>-\<close>, \<open>*\<close> or \<open>/\<close>.
\<close>

function binadeUp :: "real \<Rightarrow> int \<Rightarrow> int" where
  "binadeUp x e = (if e < 1023 \<and> 2 powi (e + 1) \<le> x then binadeUp x (e + 1) else e)"
  by pat_completeness auto
termination
  by (relation "measure (\<lambda>(x, e). nat (1023 - e))") auto

definition binade :: "real \<Rightarrow> int" where
  "binade x = binadeUp \<bar>x\<bar> (- 1022)"

definition roundEven :: "real \<Rightarrow> int" where
  "roundEven y =
     (let f = \<lfloor>y\<rfloor>; r = y - of_int f
      in if r < 1 / 2 then f else if 1 / 2 < r then f + 1 else if even f then f else f + 1)"

definition roundDouble :: "real \<Rightarrow> jsnum" where
  "roundDouble x =
     (let q = 2 powi (binade x - 52);
          v = of_int (roundEven (x / q)) * q
      in if 2 powi 1024 \<le> \<bar>v\<bar> then (if 0 < x then PInf else NInf) else Fin v)"

fun rounded :: "jsnum \<Rightarrow> jsnum" where
  "rounded (Fin x) = roundDouble x"
| "rounded a = a"

section \<open>Core game types (types/game.ts)\<close>

record Position =
  posX :: jsnum
  posY :: jsnum

datatype UnitType =
  infantry | tank | drone | jet | helicopter | missile_launcher | engineer

datatype BuildingType =
  command_center | barracks | vehicle_factory | airbase | power_plant
  | oil_refinery | steel_mill | research_lab | defense_turret

record Resources =
  res_oil :: jsnum
  res_steel :: jsnum
  res_energy :: jsnum
  res_money :: jsnum

record Unit =
  unit_id :: string
  unit_type :: UnitType
  unit_position :: Position
  unit_playerId :: string
  unit_health :: jsnum
  unit_maxHealth :: jsnum
  unit_damage :: jsnum
  unit_range :: jsnum
  unit_speed :: jsnum
  unit_isSelected :: bool
  unit_target :: "Position option"
  unit_isMoving :: bool
  unit_lastMoved :: jsnum

record ProductionItem =
  prod_type :: UnitType
  prod_progress :: jsnum
  prod_cost :: Resources

record Building =
  bld_id :: string
  bld_type :: BuildingType
  bld_position :: Position
  bld_playerId :: string
  bld_health :: jsnum
  bld_maxHealth :: jsnum
  bld_isConstructed :: bool
  bld_constructionProgress :: jsnum
  bld_isSelected :: bool
  bld_productionQueue :: "ProductionItem list"

section \<open>JavaScript Map\<close>

text \<open>
  A \<open>Map\<close> keeps its entries in insertion order. As in the language definition, the
  entry list only grows: \<open>delete\<close> empties the slot of the key (here \<open>None\<close>),
  \<open>set\<close> on a present key replaces the value in its slot and on an absent key
  appends a slot. An iteration is an index into this list, so it skips the entries
  deleted before it reaches them and visits the entries appended while it runs.
  The keys of the filled slots of a \<open>Map\<close> are distinct; \<open>mapDelete\<close> empties
  every slot of the key, which on such a list is the one slot.
\<close>

type_synonym ('k, 'v) jsMap = "('k \<times> 'v) option list"

fun mapGet :: "'k \<Rightarrow> ('k, 'v) jsMap \<Rightarrow> 'v option" where
  "mapGet k [] = None"
| "mapGet k (None # m) = mapGet k m"
| "mapGet k (Some (k', v) # m) = (if k' = k then Some v else mapGet k m)"

definition mapHas :: "'k \<Rightarrow> ('k, 'v) jsMap \<Rightarrow> bool" where
  "mapHas k m = (mapGet k m \<noteq> None)"

fun mapSet :: "'k \<Rightarrow> 'v \<Rightarrow> ('k, 'v) jsMap \<Rightarrow> ('k, 'v) jsMap" where
  "mapSet k v [] = [Some (k, v)]"
| "mapSet k v (None # m) = None # mapSet k v m"
| "mapSet k v (Some (k', v') # m) =
     (if k' = k then Some (k, v) # m else Some (k', v') # mapSet k v m)"

fun mapDelete :: "'k \<Rightarrow> ('k, 'v) jsMap \<Rightarrow> ('k, 'v) jsMap" where
  "mapDelete k [] = []"
| "mapDelete k (None # m) = None # mapDelete k m"
| "mapDelete k (Some (k', v) # m) =
     (if k' = k then None # mapDelete k m else Some (k', v) # mapDelete k m)"

fun mapEntries :: "('k, 'v) jsMap \<Rightarrow> ('k \<times> 'v) list" where
  "mapEntries [] = []"
| "mapEntries (None # m) = mapEntries m"
| "mapEntries (Some e # m) = e # mapEntries m"

definition mapValues :: "('k, 'v) jsMap \<Rightarrow> 'v list" where
  "mapValues m = map snd (mapEntries m)"

definition mapKeys :: "('k, 'v) jsMap \<Rightarrow> 'k list" where
  "mapKeys m = map fst (mapEntries m)"

text \<open>\<open>Array.prototype.find\<close>: the first element the predicate holds for.\<close>

fun arrayFind :: "('a \<Rightarrow> bool) \<Rightarrow> 'a list \<Rightarrow> 'a option" where
  "arrayFind p [] = None"
| "arrayFind p (a # as) = (if p a then Some a else arrayFind p as)"

section \<open>TerrainManager (systems/TerrainManager.ts)\<close>

datatype ResourceType = oil | steel | energy

record ResourceZone =
  zone_id :: string
  zone_type :: ResourceType
  zone_position :: Position
  zone_radius :: jsnum
  zone_totalResources :: jsnum
  zone_remainingResources :: jsnum
  zone_gatheringRate :: jsnum
  zone_workersAssigned :: "string list"
  zone_isExhausted :: bool

datatype TerrainType = grass | water | mountain | forest | road

text \<open>The tile's optional \<open>resourceZone\<close> is a reference to a zone object of the
  manager's zone table; the model holds the zone's id.\<close>

record TerrainTile =
  tile_position :: Position
  tile_type :: TerrainType
  tile_isPassable :: bool
  tile_movementCost :: jsnum
  tile_resourceZone :: "string option"

record MapSize =
  width :: jsnum
  height :: jsnum

record TerrainManager =
  terrain :: "TerrainTile list list"
  resourceZones :: "(string, ResourceZone) jsMap"
  mapSize :: MapSize

definition getDistance :: "Position \<Rightarrow> Position \<Rightarrow> jsnum" where
  "getDistance pos1 pos2 =
     Math_sqrt (Math_pow2 (posX pos1 - posX pos2) + Math_pow2 (posY pos1 - posY pos2))"

definition getResourceZones :: "TerrainManager \<Rightarrow> ResourceZone list" where
  "getResourceZones tm = mapValues (resourceZones tm)"

text \<open>The zone objects are mutated in place; the model writes the changed zone back
  into the slot of its key.\<close>

definition assignWorkerToZone :: "string \<Rightarrow> string \<Rightarrow> TerrainManager \<Rightarrow> bool \<times> TerrainManager" where
  "assignWorkerToZone workerId zoneId tm =
     (case mapGet zoneId (resourceZones tm) of
        Some zone \<Rightarrow>
          if \<not> zone_isExhausted zone \<and> length (zone_workersAssigned zone) < 5
          then (True, tm\<lparr>resourceZones :=
                  mapSet zoneId (zone\<lparr>zone_workersAssigned := zone_workersAssigned zone @ [workerId]\<rparr>)
                    (resourceZones tm)\<rparr>)
          else (False, tm)
      | None \<Rightarrow> (False, tm))"

definition removeWorkerFromZone :: "string \<Rightarrow> string \<Rightarrow> TerrainManager \<Rightarrow> TerrainManager" where
  "removeWorkerFromZone workerId zoneId tm =
     (case mapGet zoneId (resourceZones tm) of
        Some zone \<Rightarrow>
          tm\<lparr>resourceZones :=
            mapSet zoneId (zone\<lparr>zone_workersAssigned := filter (\<lambda>i. i \<noteq> workerId) (zone_workersAssigned zone)\<rparr>)
              (resourceZones tm)\<rparr>
      | None \<Rightarrow> tm)"

text \<open>The products, the quotient and the difference are those of doubles.\<close>

definition gatherResources :: "string \<Rightarrow> jsnum \<Rightarrow> TerrainManager \<Rightarrow> jsnum \<times> TerrainManager" where
  "gatherResources zoneId deltaTime tm =
     (case mapGet zoneId (resourceZones tm) of
        None \<Rightarrow> (Fin 0, tm)
      | Some zone \<Rightarrow>
          if zone_isExhausted zone \<or> length (zone_workersAssigned zone) = 0 then (Fin 0, tm)
          else
            let gathered =
                  Math_min
                    (rounded (rounded (rounded (zone_gatheringRate zone * num (length (zone_workersAssigned zone)))
                                * deltaTime) / Fin 1000))
                    (zone_remainingResources zone);
                zone1 = zone\<lparr>zone_remainingResources := rounded (zone_remainingResources zone - gathered)\<rparr>;
                zone2 = (if zone_remainingResources zone1 \<le> Fin 0
                         then zone1\<lparr>zone_isExhausted := True, zone_workersAssigned := []\<rparr>
                         else zone1)
            in (gathered, tm\<lparr>resourceZones := mapSet zoneId zone2 (resourceZones tm)\<rparr>))"

subsection \<open>Path finding\<close>

text \<open>
  \<open>xs[i]\<close> for a number \<open>i\<close>: an element when \<open>i\<close> is a whole number from \<open>0\<close>
  below the length, \<open>undefined\<close> otherwise (a fraction, a negative number, an
  infinity or NaN is no index).
\<close>

fun arrayIndex :: "jsnum \<Rightarrow> nat option" where
  "arrayIndex (Fin r) = (if 0 \<le> r \<and> r = of_int \<lfloor>r\<rfloor> then Some (nat \<lfloor>r\<rfloor>) else None)"
| "arrayIndex a = None"

definition arrayGet :: "'a list \<Rightarrow> jsnum \<Rightarrow> 'a option" where
  "arrayGet xs i =
     (case arrayIndex i of
        None \<Rightarrow> None
      | Some n \<Rightarrow> if n < length xs then Some (xs ! n) else None)"

text \<open>\<open>this.terrain[position.y][position.x]\<close>, when both lookups find something.\<close>

definition tileAt :: "TerrainManager \<Rightarrow> Position \<Rightarrow> TerrainTile option" where
  "tileAt tm position =
     (case arrayGet (terrain tm) (posY position) of
        None \<Rightarrow> None
      | Some row \<Rightarrow> arrayGet row (posX position))"

text \<open>The parent link of a node points to a node that has left the open set, and only
  nodes of the open set are ever changed, so the link can hold the parent by value.\<close>

datatype PathNode =
  PathNode (node_position: Position) (gCost: jsnum) (hCost: jsnum) (fCost: jsnum)
    (parent: "PathNode option")

definition getNeighbors :: "TerrainManager \<Rightarrow> Position \<Rightarrow> Position list" where
  "getNeighbors tm position =
     concat (map (\<lambda>dy. concat (map (\<lambda>dx.
        if dx = 0 \<and> dy = 0 then []
        else let x = posX position + Fin dx;
                 y = posY position + Fin dy
             in if x \<ge> Fin 0 \<and> x < width (mapSize tm) \<and> y \<ge> Fin 0 \<and> y < height (mapSize tm)
                then [\<lparr>posX = x, posY = y\<rparr>] else [])
        [- 1, 0, 1])) [- 1, 0, 1])"

definition isPassable :: "TerrainManager \<Rightarrow> Position \<Rightarrow> Unit list \<Rightarrow> Building list \<Rightarrow> bool" where
  "isPassable tm position us buildings =
     (case tileAt tm position of
        None \<Rightarrow> False
      | Some tile \<Rightarrow>
          if \<not> tile_isPassable tile then False
          else if list_ex (\<lambda>building. getDistance position (bld_position building) < Fin 2.5) buildings
          then False
          else length (filter (\<lambda>unit. getDistance position (unit_position unit) < Fin 0.8) us) < 1)"

definition getMovementCost :: "TerrainManager \<Rightarrow> Position \<Rightarrow> jsnum" where
  "getMovementCost tm position =
     (case tileAt tm position of
        None \<Rightarrow> PInf
      | Some tile \<Rightarrow> tile_movementCost tile)"

fun reconstructPath :: "PathNode \<Rightarrow> Position list" where
  "reconstructPath (PathNode p g h f None) = [p]"
| "reconstructPath (PathNode p g h f (Some par)) = reconstructPath par @ [p]"

text \<open>The scan for the lowest \<open>fCost\<close>: the first node wins a tie.\<close>

fun lowestF :: "PathNode \<Rightarrow> nat \<Rightarrow> nat \<Rightarrow> PathNode list \<Rightarrow> PathNode \<times> nat" where
  "lowestF currentNode currentIndex i [] = (currentNode, currentIndex)"
| "lowestF currentNode currentIndex i (n # ns) =
     (if fCost n < fCost currentNode then lowestF n i (Suc i) ns
      else lowestF currentNode currentIndex (Suc i) ns)"

text \<open>Changing the object that \<open>find\<close> returned: the first element of the array the
  predicate holds for.\<close>

fun mutateFirst :: "('a \<Rightarrow> bool) \<Rightarrow> ('a \<Rightarrow> 'a) \<Rightarrow> 'a list \<Rightarrow> 'a list" where
  "mutateFirst p f [] = []"
| "mutateFirst p f (a # as) = (if p a then f a # as else a # mutateFirst p f as)"

text \<open>The body of the loop over the neighbours. The closed set holds the keys
  \<open>x,y\<close> of the positions, here the positions.\<close>

definition considerNeighbor ::
  "TerrainManager \<Rightarrow> Position \<Rightarrow> Unit list \<Rightarrow> Building list \<Rightarrow> Position set \<Rightarrow> PathNode
    \<Rightarrow> PathNode list \<Rightarrow> Position \<Rightarrow> PathNode list" where
  "considerNeighbor tm end us buildings closedSet currentNode openSet neighbor =
     (if neighbor \<in> closedSet \<or> \<not> isPassable tm neighbor us buildings then openSet
      else
        let g = gCost currentNode + getMovementCost tm neighbor;
            h = getDistance neighbor end;
            f = g + h;
            same = (\<lambda>node. strictEq (posX (node_position node)) (posX neighbor)
                           \<and> strictEq (posY (node_position node)) (posY neighbor))
        in case arrayFind same openSet of
             None \<Rightarrow> openSet @ [PathNode neighbor g h f (Some currentNode)]
           | Some existingNode \<Rightarrow>
               if g < gCost existingNode
               then mutateFirst same
                      (\<lambda>node. PathNode (node_position node) g (hCost node) (g + hCost node) (Some currentNode))
                      openSet
               else openSet)"

function findPathLoop ::
  "TerrainManager \<Rightarrow> Position \<Rightarrow> Unit list \<Rightarrow> Building list \<Rightarrow> PathNode list \<Rightarrow> Position set
    \<Rightarrow> PathNode option" where
  "findPathLoop tm end us buildings openSet closedSet =
     (case openSet of
        [] \<Rightarrow> None
      | first # rest \<Rightarrow>
          let (currentNode, currentIndex) = lowestF first 0 1 rest;
              openSet1 = take currentIndex openSet @ drop (Suc currentIndex) openSet;
              closedSet1 = insert (node_position currentNode) closedSet
          in if getDistance (node_position currentNode) end < Fin 1 then Some currentNode
             else findPathLoop tm end us buildings
                    (foldl (considerNeighbor tm end us buildings closedSet1 currentNode) openSet1
                       (getNeighbors tm (node_position currentNode)))
                    closedSet1)"
  by pat_completeness auto

definition findPath :: "TerrainManager \<Rightarrow> Position \<Rightarrow> Position \<Rightarrow> Unit list \<Rightarrow> Building list \<Rightarrow> Position list" where
  "findPath tm start end us buildings =
     (let h = getDistance start end;
          startNode = PathNode start (Fin 0) h (Fin 0 + h) None
      in case findPathLoop tm end us buildings [startNode] {} of
           Some node \<Rightarrow> reconstructPath node
         | None \<Rightarrow> [end])"

text \<open>The positions that are tiles of the grid.\<close>

definition tiles :: "TerrainManager \<Rightarrow> Position set" where
  "tiles tm = {p. tileAt tm p \<noteq> None}"

text \<open>What the search still has to do: the tiles it has not met count twice, the
  nodes of the open set once.\<close>

definition searchMeasure :: "TerrainManager \<Rightarrow> PathNode list \<Rightarrow> Position set \<Rightarrow> nat" where
  "searchMeasure tm openSet closedSet =
     2 * card (tiles tm - closedSet - node_position ` set openSet) + length openSet"

section \<open>ResourceManager (systems/ResourceManager.ts)\<close>

text \<open>The second manager of resources, with nodes where \<open>TerrainManager\<close> has zones.\<close>

record ResourceNode =
  rn_id :: string
  rn_type :: ResourceType
  rn_position :: Position
  rn_maxResources :: jsnum
  rn_currentResources :: jsnum
  rn_extractionRate :: jsnum
  rn_workersAssigned :: "string list"
  rn_maxWorkers :: jsnum
  rn_isExhausted :: bool
  rn_radius :: jsnum

text \<open>The building types \<open>power_plant\<close>, \<open>refinery\<close>, \<open>mine\<close> of this file.\<close>

datatype ResourceBuildingType = rb_power_plant | rb_refinery | rb_mine

record ResourceBuilding =
  rb_id :: string
  rb_type :: ResourceBuildingType
  rb_position :: Position
  rb_resourceType :: ResourceType
  rb_productionRate :: jsnum
  rb_playerId :: string

record ResourceManager =
  resourceNodes :: "(string, ResourceNode) jsMap"
  resourceBuildings :: "(string, ResourceBuilding) jsMap"
  rm_mapSize :: MapSize

definition assignWorkerToNode :: "string \<Rightarrow> string \<Rightarrow> ResourceManager \<Rightarrow> bool \<times> ResourceManager" where
  "assignWorkerToNode workerId nodeId rm =
     (case mapGet nodeId (resourceNodes rm) of
        Some node \<Rightarrow>
          if \<not> rn_isExhausted node \<and> num (length (rn_workersAssigned node)) < rn_maxWorkers node
          then if workerId \<notin> set (rn_workersAssigned node)
               then (True, rm\<lparr>resourceNodes :=
                       mapSet nodeId (node\<lparr>rn_workersAssigned := rn_workersAssigned node @ [workerId]\<rparr>)
                         (resourceNodes rm)\<rparr>)
               else (False, rm)
          else (False, rm)
      | None \<Rightarrow> (False, rm))"

section \<open>AdvancedAI: the strategic state (ai/AdvancedAI.ts)\<close>

datatype ObjectiveType = ObjBuild | ObjAttack | ObjDefend | ObjExpand | ObjScout

datatype Target = TargetPos Position | TargetId string

record AIObjective =
  obj_type :: ObjectiveType
  obj_priority :: jsnum
  obj_target :: "Target option"
  obj_unitType :: "UnitType option"
  obj_buildingType :: "BuildingType option"
  obj_executionTime :: "jsnum option"

datatype ResourcePriority = balanced | oilPriority | steelPriority

record EconomicPlan =
  targetWorkerCount :: jsnum
  resourcePriority :: ResourcePriority
  expansionThreshold :: jsnum
  buildingQueue :: "BuildingType list"
  nextBuildTime :: jsnum

record MilitaryPlan =
  preferredUnits :: "UnitType list"
  targetArmySize :: jsnum
  attackThreshold :: jsnum
  defensePositions :: "Position list"
  aggressiveMode :: bool
  lastAttackTime :: jsnum
  unitProductionQueue :: "UnitType list"

datatype Phase = early | mid | late

record StrategicState =
  phase :: Phase
  economicPlan :: EconomicPlan
  militaryPlan :: MilitaryPlan
  currentObjectives :: "AIObjective list"
  enemyThreatLevel :: jsnum
  controlledArea :: "Position list"

definition initializeStrategicState :: StrategicState where
  "initializeStrategicState =
     \<lparr>phase = early,
      economicPlan =
        \<lparr>targetWorkerCount = Fin 15, resourcePriority = balanced, expansionThreshold = Fin 500,
         buildingQueue = [power_plant, barracks, vehicle_factory, defense_turret],
         nextBuildTime = Fin 0\<rparr>,
      militaryPlan =
        \<lparr>preferredUnits = [infantry, tank], targetArmySize = Fin 15, attackThreshold = Fin 6,
         defensePositions = [], aggressiveMode = True, lastAttackTime = Fin 0,
         unitProductionQueue = [infantry, infantry, tank, missile_launcher]\<rparr>,
      currentObjectives = [], enemyThreatLevel = Fin 0, controlledArea = []\<rparr>"

fun getUnitThreatValue :: "UnitType \<Rightarrow> jsnum" where
  "getUnitThreatValue infantry = Fin 0.3"
| "getUnitThreatValue tank = Fin 0.8"
| "getUnitThreatValue jet = Fin 0.6"
| "getUnitThreatValue drone = Fin 0.4"
| "getUnitThreatValue helicopter = Fin 0.5"
| "getUnitThreatValue missile_launcher = Fin 0.9"
| "getUnitThreatValue engineer = Fin 0.1"

text \<open>The planner's own \<open>calculateThreatLevel\<close> (the unit controller has another
  function of this name): enemy proximity to the command center.\<close>

definition AI_calculateThreatLevel :: "Building list \<Rightarrow> Unit list \<Rightarrow> jsnum" where
  "AI_calculateThreatLevel myBuildings enemyUnits =
     (if length myBuildings = 0 then Fin 0
      else case arrayFind (\<lambda>b. bld_type b = command_center) myBuildings of
        None \<Rightarrow> Fin 0
      | Some commandCenter \<Rightarrow>
          let maxThreatDistance = Fin 15;
              threatLevel =
                foldl (\<lambda>threatLevel enemy.
                         let distance = getDistance (bld_position commandCenter) (unit_position enemy)
                         in if distance < maxThreatDistance
                            then threatLevel
                                   + (Fin 1 - distance / maxThreatDistance) * getUnitThreatValue (unit_type enemy)
                            else threatLevel)
                      (Fin 0) enemyUnits
          in Math_min (threatLevel / Fin 5) (Fin 1))"

text \<open>\<open>updateStrategicState(myUnits, myBuildings, enemyUnits, _player)\<close>; the player
  argument is not read.\<close>

definition updateStrategicState ::
  "Unit list \<Rightarrow> Building list \<Rightarrow> Unit list \<Rightarrow> 'player \<Rightarrow> StrategicState \<Rightarrow> StrategicState" where
  "updateStrategicState myUnits myBuildings enemyUnits player st =
     (let totalUnits = length myUnits;
          totalBuildings = length myBuildings;
          st1 = (if totalUnits < 10 \<and> totalBuildings < 3 then st\<lparr>phase := early\<rparr>
                 else if totalUnits < 25 \<and> totalBuildings < 6 then st\<lparr>phase := mid\<rparr>
                 else st\<lparr>phase := late\<rparr>);
          st2 = st1\<lparr>enemyThreatLevel := AI_calculateThreatLevel myBuildings enemyUnits\<rparr>;
          st3 = (case phase st2 of
                   early \<Rightarrow>
                     st2\<lparr>economicPlan := (economicPlan st2)\<lparr>targetWorkerCount := Fin 8\<rparr>,
                         militaryPlan := (militaryPlan st2)\<lparr>targetArmySize := Fin 6\<rparr>\<rparr>
                 | mid \<Rightarrow>
                     st2\<lparr>economicPlan := (economicPlan st2)\<lparr>targetWorkerCount := Fin 12\<rparr>,
                         militaryPlan := (militaryPlan st2)\<lparr>targetArmySize := Fin 12\<rparr>\<rparr>
                 | late \<Rightarrow>
                     st2\<lparr>economicPlan := (economicPlan st2)\<lparr>targetWorkerCount := Fin 16\<rparr>,
                         militaryPlan := (militaryPlan st2)\<lparr>targetArmySize := Fin 20\<rparr>\<rparr>)
      in if enemyThreatLevel st3 > Fin 0.7
         then st3\<lparr>militaryPlan := (militaryPlan st3)\<lparr>preferredUnits := [tank, infantry]\<rparr>\<rparr>
         else if enemyThreatLevel st3 > Fin 0.4
         then st3\<lparr>militaryPlan := (militaryPlan st3)\<lparr>preferredUnits := [infantry, drone]\<rparr>\<rparr>
         else st3)"

section \<open>IntelligentUnitController (systems/IntelligentUnitController.ts)\<close>

datatype CommandType = Move | Attack | Gather | Patrol | Guard | BuildAssist

datatype Issuer = player | ai

record UnitCommand =
  cmd_id :: string
  cmd_unitId :: string
  cmd_type :: CommandType
  cmd_target :: Target
  cmd_priority :: jsnum
  cmd_createdAt :: jsnum
  cmd_issuedBy :: Issuer

datatype Role = RoleAttack | RoleDefend | RoleScout | RoleRaid

record CombatGroup =
  grp_id :: string
  grp_unitIds :: "string list"
  grp_role :: Role
  grp_target :: "Position option"
  grp_formation :: "Position list"
  grp_leader :: "string option"

record ThreatAssessment =
  thr_enemyUnitId :: string
  thr_position :: Position
  thr_threatLevel :: jsnum
  thr_unitType :: UnitType
  thr_lastSeen :: jsnum
  thr_isEngaged :: bool

text \<open>
  The state the controller's methods work on: the fields of the controller object, the
  unit objects of the array its caller passes in (the controller moves and damages them
  in place), and the clock. \<open>Date.now()\<close> yields whole milliseconds and never runs
  backwards: \<open>now\<close> is the last reading and \<open>ticks\<close> holds the time that passes
  before each of the coming readings.

  A \<open>Position\<close> is held by value. In the source a command's target, a threat entry
  or the first waypoint of a path can be the very object that is some unit's position
  and then follows that unit's later moves; no property proved here reads such a
  coordinate after the unit has moved.
\<close>

record World =
  terrainManager :: TerrainManager
  activeCommands :: "(string, UnitCommand) jsMap"
  combatGroups :: "(string, CombatGroup) jsMap"
  threatMap :: "(string, ThreatAssessment) jsMap"
  unitPaths :: "(string, Position list) jsMap"
  units :: "Unit list"
  now :: int
  ticks :: "nat list"

definition Date_now :: "World \<Rightarrow> int \<times> World" where
  "Date_now w =
     (case ticks w of
        [] \<Rightarrow> (now w, w)
      | d # ds \<Rightarrow> (now w + int d, w\<lparr>now := now w + int d, ticks := ds\<rparr>))"

text \<open>A whole number in a template string: its decimal digits.\<close>

function digitsOf :: "nat \<Rightarrow> string" where
  "digitsOf n = (if n < 10 then [''0123456789'' ! n] else digitsOf (n div 10) @ [''0123456789'' ! (n mod 10)])"
  by pat_completeness auto
termination
  by (relation "measure id") auto

declare digitsOf.simps [simp del]

definition numberToString :: "int \<Rightarrow> string" where
  "numberToString i = (if i < 0 then ''-'' @ digitsOf (nat (- i)) else digitsOf (nat i))"

fun calculateThreatLevel :: "Unit \<Rightarrow> jsnum" where
  "calculateThreatLevel enemy =
     (case unit_type enemy of
        tank \<Rightarrow> Fin 0.9
      | missile_launcher \<Rightarrow> Fin 1.0
      | jet \<Rightarrow> Fin 0.7
      | helicopter \<Rightarrow> Fin 0.6
      | infantry \<Rightarrow> Fin 0.3
      | drone \<Rightarrow> Fin 0.4
      | engineer \<Rightarrow> Fin 0.1)
     * (unit_health enemy / unit_maxHealth enemy)"

text \<open>The pruning loop deletes only the entry it is visiting, so it sees every entry
  the map held when the loop began.\<close>

definition updateThreatAssessment :: "Unit list \<Rightarrow> World \<Rightarrow> World" where
  "updateThreatAssessment enemyUnits w =
     (let (currentTime, w1) = Date_now w;
          pruned =
            foldl (\<lambda>m (i, threat).
                     if Fin (of_int currentTime) - thr_lastSeen threat > Fin 30000
                     then mapDelete i m else m)
                  (threatMap w1) (mapEntries (threatMap w1));
          updated =
            foldl (\<lambda>m enemy.
                     mapSet (unit_id enemy)
                       \<lparr>thr_enemyUnitId = unit_id enemy,
                        thr_position = unit_position enemy,
                        thr_threatLevel = calculateThreatLevel enemy,
                        thr_unitType = unit_type enemy,
                        thr_lastSeen = Fin (of_int currentTime),
                        thr_isEngaged = False\<rparr> m)
                  pruned enemyUnits
      in w1\<lparr>threatMap := updated\<rparr>)"

definition issueCommand :: "UnitCommand \<Rightarrow> World \<Rightarrow> World" where
  "issueCommand command w =
     w\<lparr>activeCommands := mapSet (cmd_id command) command (activeCommands w)\<rparr>"

definition calculateFormation :: "nat \<Rightarrow> Role \<Rightarrow> Position list" where
  "calculateFormation unitCount role =
     (case role of
        RoleAttack \<Rightarrow>
          map (\<lambda>i. \<lparr>posX = num i * Fin 2, posY = Fin 0\<rparr>) [0..<unitCount]
      | RoleDefend \<Rightarrow>
          (let arcRadius = Math_max (Fin 2) (num unitCount / Fin 2)
           in map (\<lambda>i. let angle = (num i / (num unitCount - Fin 1)) * Fin pi - Fin pi / Fin 2
                        in \<lparr>posX = Math_cos angle * arcRadius, posY = Math_sin angle * arcRadius\<rparr>)
                  [0..<unitCount])
      | RoleScout \<Rightarrow>
          map (\<lambda>i. let angle = (num i / num unitCount) * Fin 2 * Fin pi
                   in \<lparr>posX = Math_cos angle * Fin 3, posY = Math_sin angle * Fin 3\<rparr>)
              [0..<unitCount]
      | RoleRaid \<Rightarrow>
          map (\<lambda>i. \<lparr>posX = num (i mod 2) * Fin 1.5, posY = Math_floor (num i / Fin 2) * Fin 1.5\<rparr>)
              [0..<unitCount])"

text \<open>\<open>createCombatGroup(unitIds, role, target?)\<close>. The id ends in nine base-36
  digits of \<open>Math.random()\<close>, the argument \<open>rnd\<close> here. The leader is
  \<open>unitIds[0]\<close>, absent for an empty array.\<close>

definition createCombatGroup ::
  "string list \<Rightarrow> Role \<Rightarrow> Position option \<Rightarrow> string \<Rightarrow> World \<Rightarrow> string \<times> World" where
  "createCombatGroup unitIds role target rnd w =
     (let (t, w1) = Date_now w;
          groupId = ''group_'' @ numberToString t @ ''_'' @ rnd;
          group =
            \<lparr>grp_id = groupId, grp_unitIds = unitIds, grp_role = role, grp_target = target,
             grp_formation = calculateFormation (length unitIds) role,
             grp_leader = (case unitIds of [] \<Rightarrow> None | u # _ \<Rightarrow> Some u)\<rparr>
      in (groupId, w1\<lparr>combatGroups := mapSet groupId group (combatGroups w1)\<rparr>))"

definition getThreatMap :: "World \<Rightarrow> ThreatAssessment list" where
  "getThreatMap w = mapValues (threatMap w)"

definition getCombatGroups :: "World \<Rightarrow> CombatGroup list" where
  "getCombatGroups w = mapValues (combatGroups w)"

text \<open>
  Every command the controller builds gets the id \<open>prefix + unitId + "_" + Date.now()\<close>
  and the creation time \<open>Date.now()\<close>, read in this order.
\<close>

definition newCommand ::
  "string \<Rightarrow> string \<Rightarrow> CommandType \<Rightarrow> Target \<Rightarrow> jsnum \<Rightarrow> Issuer \<Rightarrow> World \<Rightarrow> UnitCommand \<times> World" where
  "newCommand prefix unitId ty target priority issuer w =
     (let (t1, w1) = Date_now w;
          (t2, w2) = Date_now w1
      in (\<lparr>cmd_id = prefix @ unitId @ ''_'' @ numberToString t1, cmd_unitId = unitId,
           cmd_type = ty, cmd_target = target, cmd_priority = priority,
           cmd_createdAt = Fin (of_int t2), cmd_issuedBy = issuer\<rparr>, w2))"

definition issueNew ::
  "string \<Rightarrow> string \<Rightarrow> CommandType \<Rightarrow> Target \<Rightarrow> jsnum \<Rightarrow> Issuer \<Rightarrow> World \<Rightarrow> World" where
  "issueNew prefix unitId ty target priority issuer w =
     (let (command, w1) = newCommand prefix unitId ty target priority issuer w
      in issueCommand command w1)"

text \<open>The public command methods; a call that leaves \<open>priority\<close> out passes 5, 8
  and 4. The controller's \<open>gatherResources\<close> issues a gather command (the terrain
  manager's method of the same name extracts).\<close>

definition moveUnit :: "string \<Rightarrow> Position \<Rightarrow> jsnum \<Rightarrow> World \<Rightarrow> World" where
  "moveUnit unitId target priority w =
     issueNew ''move_'' unitId Move (TargetPos target) priority player w"

definition attackTarget :: "string \<Rightarrow> string \<Rightarrow> jsnum \<Rightarrow> World \<Rightarrow> World" where
  "attackTarget unitId targetId priority w =
     issueNew ''attack_'' unitId Attack (TargetId targetId) priority player w"

definition controller_gatherResources :: "string \<Rightarrow> string \<Rightarrow> jsnum \<Rightarrow> World \<Rightarrow> World" where
  "controller_gatherResources unitId zoneId priority w =
     issueNew ''gather_'' unitId Gather (TargetId zoneId) priority player w"

subsection \<open>Processing the commands\<close>

text \<open>
  \<open>command.target as Position\<close> and \<open>command.target as string\<close> are unchecked casts. A
  string read as a position has no \<open>x\<close> and no \<open>y\<close>: both are \<open>undefined\<close>, which
  every arithmetic use turns into NaN. A position read as an id equals no id.
\<close>

fun asPosition :: "Target \<Rightarrow> Position" where
  "asPosition (TargetPos p) = p"
| "asPosition (TargetId i) = \<lparr>posX = NaN, posY = NaN\<rparr>"

fun asId :: "Target \<Rightarrow> string option" where
  "asId (TargetId i) = Some i"
| "asId (TargetPos p) = None"

text \<open>A unit object is found by \<open>units.find(u => u.id === ...)\<close>; changing it changes
  the first unit of the array with that id.\<close>

definition changeUnit :: "string \<Rightarrow> (Unit \<Rightarrow> Unit) \<Rightarrow> World \<Rightarrow> World" where
  "changeUnit unitId f w = w\<lparr>units := mutateFirst (\<lambda>u. unit_id u = unitId) f (units w)\<rparr>"

definition executeMoveCommand :: "Unit \<Rightarrow> Position \<Rightarrow> Building list \<Rightarrow> World \<Rightarrow> World" where
  "executeMoveCommand unit target buildings w =
     (let distance = getDistance (unit_position unit) target
      in if distance < Fin 1
         then w\<lparr>activeCommands := mapDelete (unit_id unit) (activeCommands w)\<rparr>
         else
           let cached = mapGet (unit_id unit) (unitPaths w);
               (path, w1) =
                 (if cached = None \<or> cached = Some []
                  then let path = findPath (terrainManager w) (unit_position unit) target (units w) buildings
                       in (path, w\<lparr>unitPaths := mapSet (unit_id unit) path (unitPaths w)\<rparr>)
                  else (the cached, w))
           in if length path > 1
              then
                let nextPoint = path ! 1;
                    moveDistance = unit_speed unit * Fin 0.016;
                    directionX = posX nextPoint - posX (unit_position unit);
                    directionY = posY nextPoint - posY (unit_position unit);
                    directionLength = Math_sqrt (directionX * directionX + directionY * directionY)
                in if directionLength > Fin 0
                   then
                     let position =
                           \<lparr>posX = posX (unit_position unit) + (directionX / directionLength) * moveDistance,
                            posY = posY (unit_position unit) + (directionY / directionLength) * moveDistance\<rparr>;
                         w2 = changeUnit (unit_id unit) (\<lambda>u. u\<lparr>unit_position := position\<rparr>) w1
                     in if getDistance position nextPoint < Fin 0.5
                        then w2\<lparr>unitPaths := mapSet (unit_id unit) (tl path) (unitPaths w2)\<rparr>
                        else w2
                   else w1
              else w1)"

definition performAttack :: "Unit \<Rightarrow> Unit \<Rightarrow> World \<Rightarrow> World" where
  "performAttack attacker target w =
     (let damage = Math_min (unit_damage attacker) (unit_health target);
          health = unit_health target - damage;
          w1 = changeUnit (unit_id target) (\<lambda>u. u\<lparr>unit_health := health\<rparr>) w
      in if health \<le> Fin 0
         then w1\<lparr>activeCommands := mapDelete (unit_id attacker) (activeCommands w1)\<rparr>
         else w1)"

definition executeAttackCommand :: "Unit \<Rightarrow> Target \<Rightarrow> World \<Rightarrow> World" where
  "executeAttackCommand unit targetId w =
     (case arrayFind (\<lambda>u. Some (unit_id u) = asId targetId) (units w) of
        None \<Rightarrow> w\<lparr>activeCommands := mapDelete (unit_id unit) (activeCommands w)\<rparr>
      | Some target \<Rightarrow>
          let distance = getDistance (unit_position unit) (unit_position target)
          in if distance \<le> unit_range unit
             then performAttack unit target w
             else issueNew ''move_'' (unit_id unit) Move (TargetPos (unit_position target)) (Fin 8) ai w)"

definition executeGatherCommand :: "Unit \<Rightarrow> Target \<Rightarrow> World \<Rightarrow> World" where
  "executeGatherCommand unit zoneId w =
     (case arrayFind (\<lambda>z. Some (zone_id z) = asId zoneId) (getResourceZones (terrainManager w)) of
        None \<Rightarrow> w\<lparr>activeCommands := mapDelete (unit_id unit) (activeCommands w)\<rparr>
      | Some zone \<Rightarrow>
          if zone_isExhausted zone
          then w\<lparr>activeCommands := mapDelete (unit_id unit) (activeCommands w)\<rparr>
          else
            let distance = getDistance (unit_position unit) (zone_position zone)
            in if distance \<le> zone_radius zone
               then if unit_id unit \<notin> set (zone_workersAssigned zone)
                    then w\<lparr>terrainManager :=
                           snd (assignWorkerToZone (unit_id unit) (zone_id zone) (terrainManager w))\<rparr>
                    else w
               else issueNew ''move_'' (unit_id unit) Move (TargetPos (zone_position zone)) (Fin 5) ai w)"

definition executePatrolCommand :: "Unit \<Rightarrow> Position \<Rightarrow> Building list \<Rightarrow> World \<Rightarrow> World" where
  "executePatrolCommand unit patrolPoint buildings w =
     (let startPos = unit_position unit;
          distance1 = getDistance (unit_position unit) patrolPoint;
          distance2 = getDistance (unit_position unit) startPos;
          target = (if distance1 < distance2 then startPos else patrolPoint)
      in executeMoveCommand unit target buildings w)"

text \<open>\<open>reduce\<close> without a start value, on an array that is not empty (both calls are
  behind a length check): the first element starts.\<close>

definition closestTo :: "Position \<Rightarrow> ('a \<Rightarrow> Position) \<Rightarrow> 'a \<Rightarrow> 'a list \<Rightarrow> 'a" where
  "closestTo p pos first rest =
     foldl (\<lambda>closest x. if getDistance (pos x) p < getDistance (pos closest) p then x else closest)
       first rest"

definition executeGuardCommand :: "Unit \<Rightarrow> Target \<Rightarrow> World \<Rightarrow> World" where
  "executeGuardCommand unit targetId w =
     (case arrayFind (\<lambda>u. Some (unit_id u) = asId targetId) (units w) of
        None \<Rightarrow> w\<lparr>activeCommands := mapDelete (unit_id unit) (activeCommands w)\<rparr>
      | Some guardTarget \<Rightarrow>
          let distance = getDistance (unit_position unit) (unit_position guardTarget);
              w1 = (if distance > Fin 3
                    then issueNew ''move_'' (unit_id unit) Move (TargetPos (unit_position guardTarget))
                           (Fin 6) ai w
                    else w);
              nearbyThreats =
                filter (\<lambda>threat. getDistance (thr_position threat) (unit_position guardTarget) < Fin 8)
                  (mapValues (threatMap w1))
          in (case nearbyThreats of
                [] \<Rightarrow> w1
              | first # rest \<Rightarrow>
                  let closestThreat = closestTo (unit_position unit) thr_position first rest
                  in issueNew ''attack_'' (unit_id unit) Attack (TargetId (thr_enemyUnitId closestThreat))
                       (Fin 9) ai w1))"

text \<open>The \<open>switch\<close> of \<open>processCommands\<close>; it has no case for \<open>build_assist\<close>.\<close>

definition executeCommand :: "UnitCommand \<Rightarrow> Unit \<Rightarrow> Building list \<Rightarrow> World \<Rightarrow> World" where
  "executeCommand command unit buildings w =
     (case cmd_type command of
        Move \<Rightarrow> executeMoveCommand unit (asPosition (cmd_target command)) buildings w
      | Attack \<Rightarrow> executeAttackCommand unit (cmd_target command) w
      | Gather \<Rightarrow> executeGatherCommand unit (cmd_target command) w
      | Patrol \<Rightarrow> executePatrolCommand unit (asPosition (cmd_target command)) buildings w
      | Guard \<Rightarrow> executeGuardCommand unit (cmd_target command) w
      | BuildAssist \<Rightarrow> w)"

text \<open>
  The loop over \<open>this.activeCommands.entries()\<close>: \<open>i\<close> is the iterator's index into
  the entry list, which the commands executed on the way delete from and append to.
\<close>

function processLoop ::
  "int \<Rightarrow> Building list \<Rightarrow> nat \<Rightarrow> string list \<Rightarrow> World \<Rightarrow> string list \<times> World" where
  "processLoop currentTime buildings i commandsToRemove w =
     (if i < length (activeCommands w)
      then case activeCommands w ! i of
             None \<Rightarrow> processLoop currentTime buildings (Suc i) commandsToRemove w
           | Some (commandId, command) \<Rightarrow>
               (case arrayFind (\<lambda>u. unit_id u = cmd_unitId command) (units w) of
                  None \<Rightarrow> processLoop currentTime buildings (Suc i) (commandsToRemove @ [commandId]) w
                | Some unit \<Rightarrow>
                    processLoop currentTime buildings (Suc i)
                      (if Fin (of_int currentTime) - cmd_createdAt command > Fin 60000
                       then commandsToRemove @ [commandId] else commandsToRemove)
                      (executeCommand command unit buildings w))
      else (commandsToRemove, w))"
  by pat_completeness auto

definition processCommands :: "Building list \<Rightarrow> World \<Rightarrow> World" where
  "processCommands buildings w =
     (let (currentTime, w1) = Date_now w;
          (commandsToRemove, w2) = processLoop currentTime buildings 0 [] w1
      in w2\<lparr>activeCommands := foldl (\<lambda>m i. mapDelete i m) (activeCommands w2) commandsToRemove\<rparr>)"

text \<open>What the loop still has to do: an entry costs one more than the entries its command
  can add, an emptied slot costs one.\<close>

fun commandWeight :: "CommandType \<Rightarrow> nat" where
  "commandWeight Move = 1"
| "commandWeight Patrol = 1"
| "commandWeight BuildAssist = 1"
| "commandWeight Attack = 2"
| "commandWeight Gather = 2"
| "commandWeight Guard = 4"

fun slotWeight :: "(string \<times> UnitCommand) option \<Rightarrow> nat" where
  "slotWeight None = 1"
| "slotWeight (Some (k, c)) = commandWeight (cmd_type c)"

definition work :: "nat \<Rightarrow> (string, UnitCommand) jsMap \<Rightarrow> nat" where
  "work i m = sum_list (map slotWeight (drop i m))"

subsection \<open>Combat groups and unit behaviours\<close>

definition groupUnitsOf :: "CombatGroup \<Rightarrow> World \<Rightarrow> Unit list" where
  "groupUnitsOf grp w = filter (\<lambda>unit. unit_id unit \<in> set (grp_unitIds grp)) (units w)"

text \<open>\<open>enemyUnits.reduce(..., enemyUnits[0])\<close>: on an empty array the result is the
  start value \<open>undefined\<close> and no command is issued.\<close>

definition updateAttackGroup :: "CombatGroup \<Rightarrow> Unit list \<Rightarrow> World \<Rightarrow> World" where
  "updateAttackGroup grp enemyUnits w =
     (case grp_target grp of
        None \<Rightarrow> w
      | Some target \<Rightarrow>
          let groupUnits = groupUnitsOf grp w
          in (case enemyUnits of
                [] \<Rightarrow> w
              | first # rest \<Rightarrow>
                  let nearestEnemy = closestTo target unit_position first enemyUnits
                  in foldl (\<lambda>w unit.
                              issueNew ''group_attack_'' (unit_id unit) Attack
                                (TargetId (unit_id nearestEnemy)) (Fin 8) ai w)
                       w groupUnits))"

definition updateDefenseGroup :: "CombatGroup \<Rightarrow> Unit list \<Rightarrow> World \<Rightarrow> World" where
  "updateDefenseGroup grp enemyUnits w =
     (case grp_target grp of
        None \<Rightarrow> w
      | Some target \<Rightarrow>
          let groupUnits = groupUnitsOf grp w;
              w1 = foldl (\<lambda>w (unit, index).
                            if index < length (grp_formation grp)
                            then
                              let formationPos =
                                    \<lparr>posX = posX target + posX (grp_formation grp ! index),
                                     posY = posY target + posY (grp_formation grp ! index)\<rparr>;
                                  distance = getDistance (unit_position unit) formationPos
                              in if distance > Fin 1
                                 then issueNew ''defense_move_'' (unit_id unit) Move
                                        (TargetPos formationPos) (Fin 7) ai w
                                 else w
                            else w)
                     w (zip groupUnits [0..<length groupUnits]);
              nearbyEnemies =
                filter (\<lambda>enemy. getDistance (unit_position enemy) target < Fin 12) enemyUnits
          in (case nearbyEnemies of
                [] \<Rightarrow> w1
              | first # rest \<Rightarrow>
                  foldl (\<lambda>w unit.
                           let closestEnemy = closestTo (unit_position unit) unit_position first rest
                           in issueNew ''defense_attack_'' (unit_id unit) Attack
                                (TargetId (unit_id closestEnemy)) (Fin 8) ai w)
                    w1 groupUnits))"

text \<open>\<open>a || b\<close> on numbers takes \<open>b\<close> when \<open>a\<close> is \<open>0\<close>, NaN or, from \<open>target?.x\<close>
  without a target, \<open>undefined\<close>.\<close>

fun truthy :: "jsnum \<Rightarrow> bool" where
  "truthy (Fin a) = (a \<noteq> 0)"
| "truthy NaN = False"
| "truthy a = True"

definition orElse :: "jsnum option \<Rightarrow> jsnum \<Rightarrow> jsnum" where
  "orElse a b = (case a of None \<Rightarrow> b | Some v \<Rightarrow> if truthy v then v else b)"

definition updateScoutGroup :: "CombatGroup \<Rightarrow> World \<Rightarrow> World" where
  "updateScoutGroup grp w =
     (let groupUnits = groupUnitsOf grp w
      in foldl (\<lambda>w (unit, index).
                  if index < length (grp_formation grp)
                  then
                    let scoutTarget =
                          \<lparr>posX = orElse (map_option posX (grp_target grp))
                                    (Fin 25 + posX (grp_formation grp ! index) * Fin 5),
                           posY = orElse (map_option posY (grp_target grp))
                                    (Fin 25 + posY (grp_formation grp ! index) * Fin 5)\<rparr>
                    in issueNew ''scout_move_'' (unit_id unit) Patrol (TargetPos scoutTarget) (Fin 4) ai w
                  else w)
           w (zip groupUnits [0..<length groupUnits]))"

definition updateRaidGroup :: "CombatGroup \<Rightarrow> Unit list \<Rightarrow> World \<Rightarrow> World" where
  "updateRaidGroup grp enemyUnits w =
     (let groupUnits = groupUnitsOf grp w;
          isolatedEnemies =
            filter (\<lambda>enemy.
                      length (filter (\<lambda>ally. unit_id ally \<noteq> unit_id enemy
                                         \<and> getDistance (unit_position ally) (unit_position enemy) < Fin 5)
                                enemyUnits) < 2)
              enemyUnits
      in case isolatedEnemies of
           [] \<Rightarrow> w
         | target # rest \<Rightarrow>
             foldl (\<lambda>w unit.
                      issueNew ''raid_attack_'' (unit_id unit) Attack (TargetId (unit_id target)) (Fin 7) ai w)
               w groupUnits)"

text \<open>The loop over the groups changes and deletes only the group it is visiting, so
  it visits the groups the table held when it began.\<close>

definition updateCombatGroups :: "Unit list \<Rightarrow> World \<Rightarrow> World" where
  "updateCombatGroups enemyUnits w =
     foldl (\<lambda>w (groupId, grp0).
              let grp = grp0\<lparr>grp_unitIds :=
                            filter (\<lambda>unitId. list_ex (\<lambda>unit. unit_id unit = unitId) (units w))
                              (grp_unitIds grp0)\<rparr>
              in if length (grp_unitIds grp) = 0
                 then w\<lparr>combatGroups := mapDelete groupId (combatGroups w)\<rparr>
                 else
                   let w1 = w\<lparr>combatGroups := mapSet groupId grp (combatGroups w)\<rparr>
                   in (case grp_role grp of
                         RoleAttack \<Rightarrow> updateAttackGroup grp enemyUnits w1
                       | RoleDefend \<Rightarrow> updateDefenseGroup grp enemyUnits w1
                       | RoleScout \<Rightarrow> updateScoutGroup grp w1
                       | RoleRaid \<Rightarrow> updateRaidGroup grp enemyUnits w1))
       w (mapEntries (combatGroups w))"

definition executeUnitBehaviors :: "World \<Rightarrow> World" where
  "executeUnitBehaviors w =
     foldl (\<lambda>w unit.
              if mapHas (unit_id unit) (activeCommands w) then w
              else
                let nearbyThreats =
                      filter (\<lambda>threat. getDistance (thr_position threat) (unit_position unit)
                                         < unit_range unit + Fin 2)
                        (mapValues (threatMap w))
                in (case nearbyThreats of
                      [] \<Rightarrow> w
                    | first # rest \<Rightarrow>
                        let closestThreat = closestTo (unit_position unit) thr_position first rest
                        in issueNew ''auto_attack_'' (unit_id unit) Attack
                             (TargetId (thr_enemyUnitId closestThreat)) (Fin 6) ai w))
       w (units w)"

text \<open>\<open>update(units, buildings, enemyUnits, _deltaTime)\<close>: the four phases in the
  order of the source, on the unit objects of the array passed in.\<close>

definition update :: "Unit list \<Rightarrow> Building list \<Rightarrow> Unit list \<Rightarrow> jsnum \<Rightarrow> World \<Rightarrow> World" where
  "update us buildings enemyUnits deltaTime w =
     (let w1 = updateThreatAssessment enemyUnits (w\<lparr>units := us\<rparr>);
          w2 = processCommands buildings w1;
          w3 = updateCombatGroups enemyUnits w2
      in executeUnitBehaviors w3)"

text \<open>The commands of the table that belong to a unit.\<close>

definition commandsOf :: "string \<Rightarrow> World \<Rightarrow> UnitCommand list" where
  "commandsOf unitId w = filter (\<lambda>c. cmd_unitId c = unitId) (mapValues (activeCommands w))"

text \<open>A controller that holds nothing yet, over a given terrain manager and clock.\<close>

definition newController :: "TerrainManager \<Rightarrow> Unit list \<Rightarrow> int \<Rightarrow> nat list \<Rightarrow> World" where
  "newController tm us t ds =
     \<lparr>terrainManager = tm, activeCommands = [], combatGroups = [], threatMap = [],
      unitPaths = [], units = us, now = t, ticks = ds\<rparr>"

section \<open>Concrete inputs\<close>

definition exampleZone :: ResourceZone where
  "exampleZone =
     \<lparr>zone_id = ''oil_0'', zone_type = oil, zone_position = \<lparr>posX = Fin 2, posY = Fin 2\<rparr>,
      zone_radius = Fin 3, zone_totalResources = Fin 100, zone_remainingResources = Fin 100,
      zone_gatheringRate = Fin 10, zone_workersAssigned = [''w1''], zone_isExhausted = False\<rparr>"

definition exampleTerrain :: TerrainManager where
  "exampleTerrain =
     \<lparr>terrain = [], resourceZones = [Some (''oil_0'', exampleZone)],
      mapSize = \<lparr>width = Fin 0, height = Fin 0\<rparr>\<rparr>"

text \<open>A zone with fractional amounts: the rate is the double nearest to \<open>0.1\<close>, what is
  left is the double \<open>0.30000000000000004\<close>; three workers.\<close>

definition tenthZone :: ResourceZone where
  "tenthZone =
     \<lparr>zone_id = ''steel_0'', zone_type = steel, zone_position = \<lparr>posX = Fin 2, posY = Fin 2\<rparr>,
      zone_radius = Fin 3, zone_totalResources = Fin 5000,
      zone_remainingResources = Fin (1351079888211149 / 4503599627370496),
      zone_gatheringRate = Fin (3602879701896397 / 36028797018963968),
      zone_workersAssigned = [''w1'', ''w2'', ''w3''], zone_isExhausted = False\<rparr>"

definition tenthTerrain :: TerrainManager where
  "tenthTerrain =
     \<lparr>terrain = [], resourceZones = [Some (''steel_0'', tenthZone)],
      mapSize = \<lparr>width = Fin 0, height = Fin 0\<rparr>\<rparr>"

text \<open>A node of \<open>ResourceManager\<close> with the worker \<open>w1\<close>, as \<open>exampleZone\<close> has.\<close>

definition exampleNode :: ResourceNode where
  "exampleNode =
     \<lparr>rn_id = ''oil_node_0'', rn_type = oil, rn_position = \<lparr>posX = Fin 2, posY = Fin 2\<rparr>,
      rn_maxResources = Fin 100, rn_currentResources = Fin 100, rn_extractionRate = Fin 10,
      rn_workersAssigned = [''w1''], rn_maxWorkers = Fin 3, rn_isExhausted = False, rn_radius = Fin 2\<rparr>"

definition exampleManager :: ResourceManager where
  "exampleManager =
     \<lparr>resourceNodes = [Some (''oil_node_0'', exampleNode)], resourceBuildings = [],
      rm_mapSize = \<lparr>width = Fin 0, height = Fin 0\<rparr>\<rparr>"

definition exampleUnit :: "string \<Rightarrow> Position \<Rightarrow> Unit" where
  "exampleUnit i p =
     \<lparr>unit_id = i, unit_type = infantry, unit_position = p, unit_playerId = ''ai_1'',
      unit_health = Fin 100, unit_maxHealth = Fin 100, unit_damage = Fin 10, unit_range = Fin 2,
      unit_speed = Fin 1, unit_isSelected = False, unit_target = None, unit_isMoving = False,
      unit_lastMoved = Fin 0\<rparr>"

definition exampleBuilding :: "string \<Rightarrow> BuildingType \<Rightarrow> Position \<Rightarrow> Building" where
  "exampleBuilding i t p =
     \<lparr>bld_id = i, bld_type = t, bld_position = p, bld_playerId = ''ai_1'', bld_health = Fin 500,
      bld_maxHealth = Fin 500, bld_isConstructed = True, bld_constructionProgress = Fin 100,
      bld_isSelected = False, bld_productionQueue = []\<rparr>"

text \<open>A command of the kind no case of the \<open>switch\<close> handles.\<close>

definition idleCommand :: UnitCommand where
  "idleCommand =
     \<lparr>cmd_id = ''assist_u1_1000'', cmd_unitId = ''u1'', cmd_type = BuildAssist,
      cmd_target = TargetId ''b1'', cmd_priority = Fin 3, cmd_createdAt = Fin 1000,
      cmd_issuedBy = ai\<rparr>"

text \<open>A threat entry last seen at time 1000.\<close>

definition oldThreat :: ThreatAssessment where
  "oldThreat =
     \<lparr>thr_enemyUnitId = ''e1'', thr_position = \<lparr>posX = Fin 4, posY = Fin 4\<rparr>,
      thr_threatLevel = Fin 0.9, thr_unitType = tank, thr_lastSeen = Fin 1000,
      thr_isEngaged = False\<rparr>"

text \<open>Grids: \<open>openGrid W H\<close> is all grass; in \<open>walledGrid\<close>, 3 by 3, mountains on
  \<open>(1,0)\<close>, \<open>(0,1)\<close> and \<open>(1,1)\<close> close the corner \<open>(0,0)\<close> in; in \<open>forestGrid\<close>, 3 by 3,
  a road (movement cost \<open>0.5\<close>) leads around forest (movement cost \<open>2\<close>). The costs are
  those \<open>generateTerrain\<close> gives the three kinds of passable tiles.\<close>

definition grassTile :: "nat \<Rightarrow> nat \<Rightarrow> TerrainTile" where
  "grassTile x y =
     \<lparr>tile_position = \<lparr>posX = num x, posY = num y\<rparr>, tile_type = grass, tile_isPassable = True,
      tile_movementCost = Fin 1, tile_resourceZone = None\<rparr>"

definition mountainTile :: "nat \<Rightarrow> nat \<Rightarrow> TerrainTile" where
  "mountainTile x y =
     \<lparr>tile_position = \<lparr>posX = num x, posY = num y\<rparr>, tile_type = mountain, tile_isPassable = False,
      tile_movementCost = PInf, tile_resourceZone = None\<rparr>"


definition walledGrid :: TerrainManager where
  "walledGrid =
     \<lparr>terrain =
        [[grassTile 0 0, mountainTile 1 0, grassTile 2 0],
         [mountainTile 0 1, mountainTile 1 1, grassTile 2 1],
         [grassTile 0 2, grassTile 1 2, grassTile 2 2]],
      resourceZones = [],
      mapSize = \<lparr>width = Fin 3, height = Fin 3\<rparr>\<rparr>"




section \<open>Vocabulary of the path properties\<close>

text \<open>
  \<open>tileP x y\<close> is the position of the tile in column \<open>x\<close> of row \<open>y\<close>;
  \<open>allPassableGrid tm W H\<close> says that the terrain is \<open>H\<close> rows of \<open>W\<close> passable tiles
  and that the map size is \<open>W\<close> by \<open>H\<close>; \<open>near p q\<close> says that \<open>q\<close> is \<open>p\<close> moved by
  at most one tile along each axis, and \<open>stepsOK\<close> that every waypoint of a path is near
  the one before. \<open>goodNode\<close> is the invariant of the nodes of the search: the chain of
  parents leads back to the start in such steps.
\<close>

definition tileP :: "int \<Rightarrow> int \<Rightarrow> Position" where
  "tileP x y = \<lparr>posX = Fin (of_int x), posY = Fin (of_int y)\<rparr>"

definition inGrid :: "nat \<Rightarrow> nat \<Rightarrow> Position \<Rightarrow> bool" where
  "inGrid W H p = (\<exists>x y. p = tileP x y \<and> 0 \<le> x \<and> x < int W \<and> 0 \<le> y \<and> y < int H)"







definition gstep :: "int \<Rightarrow> int \<Rightarrow> nat \<Rightarrow> int" where
  "gstep s t i = s + sgn (t - s) * min (int i) \<bar>t - s\<bar>"

definition greedy :: "int \<Rightarrow> int \<Rightarrow> int \<Rightarrow> int \<Rightarrow> nat \<Rightarrow> Position" where
  "greedy x0 y0 x1 y1 i = tileP (gstep x0 x1 i) (gstep y0 y1 i)"

fun greedyNode :: "int \<Rightarrow> int \<Rightarrow> int \<Rightarrow> int \<Rightarrow> nat \<Rightarrow> PathNode" where
  "greedyNode x0 y0 x1 y1 0 =
     (let h = getDistance (tileP x0 y0) (tileP x1 y1)
      in PathNode (tileP x0 y0) (Fin 0) h (Fin 0 + h) None)"
| "greedyNode x0 y0 x1 y1 (Suc i) =
     (let cur = greedyNode x0 y0 x1 y1 i;
          p = greedy x0 y0 x1 y1 (Suc i);
          g = gCost cur + Fin 1;
          h = getDistance p (tileP x1 y1)
      in PathNode p g h (g + h) (Some cur))"





text \<open>
  For the command table: a command is \<open>expired\<close> at time \<open>t\<close> when the timeout test of
  \<open>processCommands\<close> holds for it; \<open>evolves t m m'\<close> says that table \<open>m'\<close> has every
  slot of \<open>m\<close> and that each filled slot of \<open>m'\<close> either is as it was in \<open>m\<close> or holds a
  command that is not expired; \<open>advances\<close> adds that the clock has not run backwards.
\<close>

definition expired :: "int \<Rightarrow> UnitCommand \<Rightarrow> bool" where
  "expired t c = (Fin (of_int t) - cmd_createdAt c > Fin 60000)"

definition evolves :: "int \<Rightarrow> (string, UnitCommand) jsMap \<Rightarrow> (string, UnitCommand) jsMap \<Rightarrow> bool" where
  "evolves t m m' =
     (length m \<le> length m'
      \<and> (\<forall>j < length m'. \<forall>k c. m' ! j = Some (k, c)
            \<longrightarrow> (j < length m \<and> m ! j = Some (k, c)) \<or> \<not> expired t c))"

definition advances :: "int \<Rightarrow> World \<Rightarrow> World \<Rightarrow> bool" where
  "advances t w w' = (evolves t (activeCommands w) (activeCommands w') \<and> now w \<le> now w')"

text \<open>
  For the threat table: an entry is \<open>stale\<close> at time \<open>t\<close> when the pruning test of
  \<open>updateThreatAssessment\<close> holds for it; \<open>pruneStep\<close> is the body of the pruning loop
  for a test \<open>P\<close>.
\<close>

definition stale :: "int \<Rightarrow> ThreatAssessment \<Rightarrow> bool" where
  "stale t th = (Fin (of_int t) - thr_lastSeen th > Fin 30000)"

definition pruneStep :: "('v \<Rightarrow> bool) \<Rightarrow> ('k, 'v) jsMap \<Rightarrow> 'k \<times> 'v \<Rightarrow> ('k, 'v) jsMap" where
  "pruneStep P m e = (if P (snd e) then mapDelete (fst e) m else m)"

section \<open>Properties\<close>

lemma divide_jsnum_simps [simp]:
  "Fin a / Fin b = (if b \<noteq> 0 then Fin (a / b) else if a = 0 then NaN else if 0 < a then PInf else NInf)"
  "NaN / c = NaN" "c / NaN = NaN"
  "Fin a / PInf = Fin 0" "Fin a / NInf = Fin 0"
  "PInf / Fin b = (if 0 \<le> b then PInf else NInf)"
  "NInf / Fin b = (if 0 \<le> b then NInf else PInf)"
  "PInf / PInf = NaN" "PInf / NInf = NaN" "NInf / PInf = NaN" "NInf / NInf = NaN"
  by (cases c; simp add: divide_jsnum_def)+

lemma num_simps: "num n = Fin (real n)"
  by (simp add: num_def)

lemma Math_min_Fin [simp]: "Math_min (Fin a) (Fin b) = Fin (min a b)"
  by (simp add: min_def)

lemma Math_max_Fin [simp]: "Math_max (Fin a) (Fin b) = Fin (max a b)"
  by (simp add: max_def)

lemma mapGet_mapSet_same: "mapGet k (mapSet k v m) = Some v"
  by (induction k v m rule: mapSet.induct) auto

lemma mapGet_mapSet_other: "k' \<noteq> k \<Longrightarrow> mapGet k' (mapSet k v m) = mapGet k' m"
  by (induction k v m rule: mapSet.induct) auto

subsection \<open>The search terminates\<close>

lemma arrayIndex_Some: "arrayIndex a = Some n \<Longrightarrow> a = Fin (real n)"
  by (cases a) (auto split: if_splits)

lemma arrayGet_Some: "arrayGet xs a = Some v \<Longrightarrow> \<exists>n. a = Fin (real n) \<and> n < length xs \<and> v = xs ! n"
  by (auto simp add: arrayGet_def split: option.splits if_splits dest: arrayIndex_Some)

lemma arrayGet_index [simp]: "arrayGet xs (Fin (real n)) = (if n < length xs then Some (xs ! n) else None)"
  by (simp add: arrayGet_def)

lemma tileAt_Some:
  "tileAt tm p = Some t \<Longrightarrow>
     \<exists>i j. p = \<lparr>posX = Fin (real j), posY = Fin (real i)\<rparr> \<and> i < length (terrain tm)
        \<and> j < length (terrain tm ! i) \<and> t = terrain tm ! i ! j"
  by (cases p) (auto simp add: tileAt_def split: option.splits dest!: arrayGet_Some)

lemma finite_tiles: "finite (tiles tm)"
proof -
  let ?W = "Max (insert 0 (length ` set (terrain tm)))"
  have "tiles tm \<subseteq> (\<lambda>(i, j). \<lparr>posX = Fin (real j), posY = Fin (real i)\<rparr>) ` ({..<length (terrain tm)} \<times> {..?W})"
  proof
    fix p assume "p \<in> tiles tm"
    then obtain t where "tileAt tm p = Some t" by (auto simp add: tiles_def)
    from tileAt_Some [OF this] obtain i j where
      p: "p = \<lparr>posX = Fin (real j), posY = Fin (real i)\<rparr>" and i: "i < length (terrain tm)"
      and j: "j < length (terrain tm ! i)" by blast
    from i have "length (terrain tm ! i) \<in> insert 0 (length ` set (terrain tm))" by simp
    then have "length (terrain tm ! i) \<le> ?W" by (intro Max_ge) auto
    with j have "j \<le> ?W" by simp
    with p i show "p \<in> (\<lambda>(i, j). \<lparr>posX = Fin (real j), posY = Fin (real i)\<rparr>) ` ({..<length (terrain tm)} \<times> {..?W})"
      by auto
  qed
  then show ?thesis by (rule finite_subset) simp
qed

lemma arrayFind_None: "arrayFind p xs = None \<longleftrightarrow> (\<forall>x \<in> set xs. \<not> p x)"
  by (induction xs) auto


lemma length_mutateFirst [simp]: "length (mutateFirst p f xs) = length xs"
  by (induction xs) auto

lemma positions_mutateFirst:
  "(\<And>x. node_position (f x) = node_position x) \<Longrightarrow>
     node_position ` set (mutateFirst p f xs) = node_position ` set xs"
  by (induction xs) auto

lemma isPassable_tile: "isPassable tm p us bs \<Longrightarrow> p \<in> tiles tm"
  by (auto simp add: isPassable_def tiles_def split: option.splits)

lemma tile_finite_coords: "p \<in> tiles tm \<Longrightarrow> posX p \<noteq> NaN \<and> posY p \<noteq> NaN"
  by (auto simp add: tiles_def dest!: tileAt_Some)

lemma considerNeighbor_measure:
  "searchMeasure tm (considerNeighbor tm e us bs closedSet cur openSet nb) closedSet
     \<le> searchMeasure tm openSet closedSet"
proof (cases "nb \<in> closedSet \<or> \<not> isPassable tm nb us bs")
  case True
  then show ?thesis by (auto simp add: considerNeighbor_def)
next
  case False
  then have tile: "nb \<in> tiles tm" and notClosed: "nb \<notin> closedSet"
    by (auto dest: isPassable_tile)
  let ?same = "\<lambda>node. strictEq (posX (node_position node)) (posX nb)
                           \<and> strictEq (posY (node_position node)) (posY nb)"
  show ?thesis
  proof (cases "arrayFind ?same openSet")
    case None
    have "nb \<notin> node_position ` set openSet"
    proof
      assume "nb \<in> node_position ` set openSet"
      then obtain n where "n \<in> set openSet" "node_position n = nb" by auto
      with tile_finite_coords [OF tile] have "?same n" by (simp add: strictEq_def)
      with None \<open>n \<in> set openSet\<close> show False by (auto simp add: arrayFind_None)
    qed
    with tile notClosed have mem: "nb \<in> tiles tm - closedSet - node_position ` set openSet" by simp
    have fin: "finite (tiles tm - closedSet - node_position ` set openSet)"
      using finite_tiles by simp
    have eq: "tiles tm - closedSet - insert nb (node_position ` set openSet)
            = (tiles tm - closedSet - node_position ` set openSet) - {nb}"
      by auto
    have "card ((tiles tm - closedSet - node_position ` set openSet) - {nb})
          = card (tiles tm - closedSet - node_position ` set openSet) - 1"
      using mem fin by simp
    moreover have "0 < card (tiles tm - closedSet - node_position ` set openSet)"
      using mem fin by (auto simp add: card_gt_0_iff)
    ultimately show ?thesis
      using False None by (simp add: considerNeighbor_def Let_def searchMeasure_def eq)
  next
    case (Some existingNode)
    then show ?thesis
      using False
      by (simp add: considerNeighbor_def Let_def searchMeasure_def positions_mutateFirst)
  qed
qed

lemma foldl_considerNeighbor_measure:
  "searchMeasure tm (foldl (considerNeighbor tm e us bs closedSet cur) openSet nbs) closedSet
     \<le> searchMeasure tm openSet closedSet"
proof (induction nbs arbitrary: openSet)
  case Nil
  then show ?case by simp
next
  case (Cons nb nbs)
  have "searchMeasure tm (foldl (considerNeighbor tm e us bs closedSet cur) (considerNeighbor tm e us bs closedSet cur openSet nb) nbs) closedSet
     \<le> searchMeasure tm (considerNeighbor tm e us bs closedSet cur openSet nb) closedSet"
    by (rule Cons.IH)
  also have "\<dots> \<le> searchMeasure tm openSet closedSet"
    by (rule considerNeighbor_measure)
  finally show ?case by simp
qed

lemma lowestF_index:
  "lowestF c ci i ns = (c', ci') \<Longrightarrow> length pre = i \<Longrightarrow> ci < i \<Longrightarrow> (pre @ ns) ! ci = c
     \<Longrightarrow> ci' < length (pre @ ns) \<and> (pre @ ns) ! ci' = c'"
proof (induction ns arbitrary: c ci i pre)
  case Nil
  then show ?case by simp
next
  case (Cons n ns)
  show ?case
  proof (cases "fCost n < fCost c")
    case True
    with Cons.prems have low: "lowestF n i (Suc i) ns = (c', ci')" by simp
    have "((pre @ [n]) @ ns) ! i = n" using Cons.prems by (simp add: nth_append)
    from Cons.IH [OF low _ _ this] Cons.prems show ?thesis by simp
  next
    case False
    with Cons.prems have low: "lowestF c ci (Suc i) ns = (c', ci')" by simp
    have "((pre @ [n]) @ ns) ! ci = c" using Cons.prems by (simp add: nth_append)
    from Cons.IH [OF low _ _ this] Cons.prems show ?thesis by simp
  qed
qed

lemma lowestF_first:
  "lowestF first 0 1 rest = (c, ci) \<Longrightarrow> ci < length (first # rest) \<and> (first # rest) ! ci = c"
  using lowestF_index [of first 0 1 rest c ci "[first]"] by simp

lemma pop_measure:
  assumes "ci < length openSet" "openSet ! ci = c"
  shows "searchMeasure tm (take ci openSet @ drop (Suc ci) openSet) (insert (node_position c) closedSet)
         < searchMeasure tm openSet closedSet"
proof -
  have set: "set openSet = set (take ci openSet @ drop (Suc ci) openSet) \<union> {c}"
    using assms by (metis Cons_nth_drop_Suc Un_insert_right append_take_drop_id list.simps(15) set_append sup_bot.right_neutral)
  have "node_position ` set openSet
          \<subseteq> insert (node_position c) (node_position ` set (take ci openSet @ drop (Suc ci) openSet))"
    by (subst set) auto
  then have sub: "tiles tm - insert (node_position c) closedSet - node_position ` set (take ci openSet @ drop (Suc ci) openSet)
        \<subseteq> tiles tm - closedSet - node_position ` set openSet"
    by blast
  have "card (tiles tm - insert (node_position c) closedSet - node_position ` set (take ci openSet @ drop (Suc ci) openSet))
        \<le> card (tiles tm - closedSet - node_position ` set openSet)"
    by (rule card_mono [OF _ sub]) (simp add: finite_tiles)
  then show ?thesis
    using assms by (simp add: searchMeasure_def)
qed

termination findPathLoop
proof (relation "measure (\<lambda>(tm, e, us, bs, openSet, closedSet). searchMeasure tm openSet closedSet)", goal_cases)
  case 1
  then show ?case by simp
next
  case (2 tm e us bs openSet closedSet first rest x currentNode currentIndex openSet1 closedSet1)
  from 2 have low: "lowestF first 0 1 rest = (currentNode, currentIndex)" by simp
  from lowestF_first [OF low] 2 have idx: "currentIndex < length openSet" "openSet ! currentIndex = currentNode"
    by simp_all
  have "searchMeasure tm (foldl (considerNeighbor tm e us bs closedSet1 currentNode) openSet1
                       (getNeighbors tm (node_position currentNode))) closedSet1
       \<le> searchMeasure tm openSet1 closedSet1"
    by (rule foldl_considerNeighbor_measure)
  also have "\<dots> < searchMeasure tm openSet closedSet"
    using pop_measure [OF idx] 2 by simp
  finally show ?case by simp
qed

declare findPathLoop.simps [simp del]

lemma getDistance_Fin [simp]:
  "getDistance \<lparr>posX = Fin a, posY = Fin b\<rparr> \<lparr>posX = Fin c, posY = Fin d\<rparr>
     = Fin (sqrt ((a - c) * (a - c) + (b - d) * (b - d)))"
  by (simp add: getDistance_def Math_pow2_def not_less)

subsection \<open>The loop over the commands terminates\<close>

lemma commandWeight_pos: "0 < commandWeight t"
  by (cases t) simp_all

lemma slotWeight_pos: "0 < slotWeight e"
  by (cases e) (auto simp add: commandWeight_pos)

lemma work_step: "i < length m \<Longrightarrow> work i m = slotWeight (m ! i) + work (Suc i) m"
  by (simp add: work_def flip: Cons_nth_drop_Suc)

lemma work_mapSet: "work j (mapSet k c m) \<le> work j m + commandWeight (cmd_type c)"
proof (induction k c m arbitrary: j rule: mapSet.induct)
  case (1 k v)
  then show ?case by (cases j) (simp_all add: work_def)
next
  case (2 k v m)
  from 2 [of "j - 1"] show ?case by (cases j) (simp_all add: work_def)
next
  case (3 k v k' v' m)
  show ?case
  proof (cases "k' = k")
    case True
    then show ?thesis by (cases j) (simp_all add: work_def)
  next
    case False
    with 3 [of "j - 1"] show ?thesis by (cases j) (simp_all add: work_def)
  qed
qed

lemma work_mapDelete: "work j (mapDelete k m) \<le> work j m"
proof (induction k m arbitrary: j rule: mapDelete.induct)
  case (1 k)
  then show ?case by simp
next
  case (2 k m)
  from 2 [of "j - 1"] show ?case by (cases j) (simp_all add: work_def)
next
  case (3 k k' v m)
  from 3 [of "j - 1"] commandWeight_pos [of "cmd_type v"] show ?case
    by (cases j) (auto simp add: work_def)
qed

lemma activeCommands_Date_now [simp]: "activeCommands (snd (Date_now w)) = activeCommands w"
  by (simp add: Date_now_def split: list.split)

lemma activeCommands_changeUnit [simp]: "activeCommands (changeUnit i f w) = activeCommands w"
  by (simp add: changeUnit_def)

lemma newCommand_type [simp]: "cmd_type (fst (newCommand p u ty tg pr is w)) = ty"
  by (simp add: newCommand_def Let_def split: prod.split)

lemma newCommand_activeCommands [simp]:
  "activeCommands (snd (newCommand p u ty tg pr is w)) = activeCommands w"
  by (simp add: newCommand_def Let_def Date_now_def split: prod.split list.split)

lemma work_issueNew:
  "work j (activeCommands (issueNew p u ty tg pr is w)) \<le> work j (activeCommands w) + commandWeight ty"
proof -
  obtain c w1 where n: "newCommand p u ty tg pr is w = (c, w1)" by (cases "newCommand p u ty tg pr is w")
  from newCommand_type [of p u ty tg pr "is" w] newCommand_activeCommands [of p u ty tg pr "is" w] n
  have "cmd_type c = ty" "activeCommands w1 = activeCommands w" by simp_all
  with work_mapSet [of j "cmd_id c" c "activeCommands w"] n show ?thesis
    by (simp add: issueNew_def issueCommand_def)
qed

lemma work_executeMoveCommand:
  "work j (activeCommands (executeMoveCommand u t bs w)) \<le> work j (activeCommands w)"
  by (simp add: executeMoveCommand_def Let_def work_mapDelete split: prod.split)

lemma work_performAttack:
  "work j (activeCommands (performAttack a t w)) \<le> work j (activeCommands w)"
  by (simp add: performAttack_def Let_def work_mapDelete)

lemma work_executeAttackCommand:
  "work j (activeCommands (executeAttackCommand u t w)) \<le> work j (activeCommands w) + 1"
  using work_issueNew [of j _ _ Move] work_performAttack [of j] work_mapDelete [of j]
  by (auto simp add: executeAttackCommand_def Let_def le_SucI split: option.split)

lemma work_executeGatherCommand:
  "work j (activeCommands (executeGatherCommand u t w)) \<le> work j (activeCommands w) + 1"
  using work_issueNew [of j _ _ Move] work_mapDelete [of j]
  by (auto simp add: executeGatherCommand_def Let_def le_SucI split: option.split)

lemma work_executePatrolCommand:
  "work j (activeCommands (executePatrolCommand u t bs w)) \<le> work j (activeCommands w)"
  by (simp add: executePatrolCommand_def Let_def work_executeMoveCommand)

lemma work_executeGuardCommand:
  "work j (activeCommands (executeGuardCommand u t w)) \<le> work j (activeCommands w) + 3"
proof -
  have g1: "work j (activeCommands (issueNew p u' Move tg pr is w)) \<le> work j (activeCommands w) + 3"
    for p u' tg pr "is"
    using work_issueNew [of j p u' Move tg pr "is" w] by simp
  have g3: "work j (activeCommands (issueNew p u' Attack tg pr is w)) \<le> work j (activeCommands w) + 3"
    for p u' tg pr "is"
    using work_issueNew [of j p u' Attack tg pr "is" w] by simp
  have g2: "work j (activeCommands (issueNew p u' Attack tg pr is (issueNew p2 u2 Move tg2 pr2 is2 w)))
            \<le> work j (activeCommands w) + 3" for p u' tg pr "is" p2 u2 tg2 pr2 is2
    using work_issueNew [of j p u' Attack tg pr "is" "issueNew p2 u2 Move tg2 pr2 is2 w"]
      work_issueNew [of j p2 u2 Move tg2 pr2 is2 w] by simp
  have g4: "work j (mapDelete k (activeCommands w)) \<le> work j (activeCommands w) + 3" for k
    using work_mapDelete [of j k "activeCommands w"] by simp
  show ?thesis
    by (simp add: executeGuardCommand_def Let_def g1 g2 g3 g4 split: option.split list.split)
qed

lemma work_executeCommand:
  "work j (activeCommands (executeCommand c u bs w)) + 1 \<le> work j (activeCommands w) + commandWeight (cmd_type c)"
proof (cases "cmd_type c")
  case Move
  with work_executeMoveCommand [of j u "asPosition (cmd_target c)" bs w] show ?thesis
    by (simp add: executeCommand_def)
next
  case Attack
  with work_executeAttackCommand [of j u "cmd_target c" w] show ?thesis
    by (simp add: executeCommand_def)
next
  case Gather
  with work_executeGatherCommand [of j u "cmd_target c" w] show ?thesis
    by (simp add: executeCommand_def)
next
  case Patrol
  with work_executePatrolCommand [of j u "asPosition (cmd_target c)" bs w] show ?thesis
    by (simp add: executeCommand_def)
next
  case Guard
  with work_executeGuardCommand [of j u "cmd_target c" w] show ?thesis
    by (simp add: executeCommand_def)
next
  case BuildAssist
  then show ?thesis by (simp add: executeCommand_def)
qed

termination processLoop
proof (relation "measure (\<lambda>(t, bs, i, rm, w). work i (activeCommands w))", goal_cases)
  case 1
  then show ?case by simp
next
  case (2 t bs i rm w)
  then show ?case using slotWeight_pos [of "activeCommands w ! i"] by (simp add: work_step)
next
  case (3 t bs i rm w e k c)
  then show ?case using slotWeight_pos [of "activeCommands w ! i"] by (simp add: work_step)
next
  case (4 t bs i rm w e k c unit)
  with work_executeCommand [of "Suc i" c unit bs w] show ?case by (auto simp add: work_step)
qed

declare processLoop.simps [simp del]

subsection \<open>Old commands leave the table\<close>

lemma evolves_refl [simp]: "evolves t m m"
  by (simp add: evolves_def)

lemma evolves_trans: "evolves t m1 m2 \<Longrightarrow> evolves t m2 m3 \<Longrightarrow> evolves t m1 m3"
  unfolding evolves_def by (meson le_trans less_le_trans)

lemma length_mapDelete [simp]: "length (mapDelete k m) = length m"
  by (induction k m rule: mapDelete.induct) auto

lemma nth_mapDelete:
  "j < length m \<Longrightarrow> mapDelete k m ! j = Some (k', c) \<Longrightarrow> m ! j = Some (k', c) \<and> k' \<noteq> k"
proof (induction k m arbitrary: j rule: mapDelete.induct)
  case (1 k)
  then show ?case by simp
next
  case (2 k m)
  then show ?case by (cases j) auto
next
  case (3 k k'' v m)
  then show ?case by (cases j) (auto split: if_splits)
qed

lemma evolves_mapDelete: "evolves t m (mapDelete k m)"
  by (auto simp add: evolves_def dest: nth_mapDelete)

lemma length_mapSet: "length m \<le> length (mapSet k c m)"
  by (induction k c m rule: mapSet.induct) auto

lemma nth_mapSet:
  "j < length (mapSet k c m) \<Longrightarrow> mapSet k c m ! j = Some (k', c')
    \<Longrightarrow> (j < length m \<and> m ! j = Some (k', c')) \<or> c' = c"
proof (induction k c m arbitrary: j rule: mapSet.induct)
  case (1 k v)
  then show ?case by simp
next
  case (2 k v m)
  then show ?case by (cases j) auto
next
  case (3 k v k'' v' m)
  then show ?case by (cases j) (auto split: if_splits)
qed

lemma evolves_mapSet: "\<not> expired t c \<Longrightarrow> evolves t m (mapSet k c m)"
  unfolding evolves_def using length_mapSet [of m k c] nth_mapSet [of _ k c m] by blast

lemma now_Date_now: "now w \<le> fst (Date_now w) \<and> now (snd (Date_now w)) = fst (Date_now w)"
  by (simp add: Date_now_def split: list.split)

lemma newCommand_fresh:
  assumes "t \<le> now w"
  shows "\<not> expired t (fst (newCommand p u ty tg pr is w)) \<and> now w \<le> now (snd (newCommand p u ty tg pr is w))"
proof -
  obtain t1 w1 where d1: "Date_now w = (t1, w1)" by (cases "Date_now w")
  obtain t2 w2 where d2: "Date_now w1 = (t2, w2)" by (cases "Date_now w1")
  from now_Date_now [of w] now_Date_now [of w1] d1 d2 have "now w \<le> t2" "now w2 = t2" by simp_all
  with assms d1 d2 show ?thesis
    by (simp add: newCommand_def expired_def)
qed

lemma issueNew_evolves:
  assumes "t \<le> now w"
  shows "evolves t (activeCommands w) (activeCommands (issueNew p u ty tg pr is w))
       \<and> now w \<le> now (issueNew p u ty tg pr is w)"
proof -
  obtain c w1 where n: "newCommand p u ty tg pr is w = (c, w1)" by (cases "newCommand p u ty tg pr is w")
  from newCommand_fresh [OF assms, of p u ty tg pr "is"] newCommand_activeCommands [of p u ty tg pr "is" w] n
  have "\<not> expired t c" "now w \<le> now w1" "activeCommands w1 = activeCommands w" by simp_all
  with n evolves_mapSet [of t c "activeCommands w" "cmd_id c"] show ?thesis
    by (simp add: issueNew_def issueCommand_def)
qed


lemma advances_refl [simp]: "advances t w w"
  by (simp add: advances_def)

lemma advances_trans: "advances t w1 w2 \<Longrightarrow> advances t w2 w3 \<Longrightarrow> advances t w1 w3"
  unfolding advances_def using evolves_trans by fastforce

lemma advances_now: "advances t w w' \<Longrightarrow> t \<le> now w \<Longrightarrow> t \<le> now w'"
  by (simp add: advances_def)

lemma issueNew_advances: "t \<le> now w \<Longrightarrow> advances t w (issueNew p u ty tg pr is w)"
  using issueNew_evolves by (simp add: advances_def)

lemma delete_advances: "advances t w (w\<lparr>activeCommands := mapDelete k (activeCommands w)\<rparr>)"
  by (simp add: advances_def evolves_mapDelete)

lemma now_changeUnit [simp]: "now (changeUnit i f w) = now w"
  by (simp add: changeUnit_def)

lemma executeMoveCommand_advances: "advances t w (executeMoveCommand u tg bs w)"
  by (simp add: executeMoveCommand_def Let_def advances_def evolves_mapDelete split: prod.split)

lemma performAttack_advances: "advances t w (performAttack a tg w)"
  by (simp add: performAttack_def Let_def advances_def evolves_mapDelete)

lemma executeAttackCommand_advances: "t \<le> now w \<Longrightarrow> advances t w (executeAttackCommand u tg w)"
  by (simp add: executeAttackCommand_def Let_def delete_advances performAttack_advances
      issueNew_advances split: option.split)

lemma executeGatherCommand_advances: "t \<le> now w \<Longrightarrow> advances t w (executeGatherCommand u tg w)"
  by (simp add: executeGatherCommand_def Let_def delete_advances issueNew_advances
      split: option.split) (simp add: advances_def)

lemma executePatrolCommand_advances: "advances t w (executePatrolCommand u tg bs w)"
  by (simp add: executePatrolCommand_def Let_def executeMoveCommand_advances)

lemma executeGuardCommand_advances:
  assumes "t \<le> now w"
  shows "advances t w (executeGuardCommand u tg w)"
proof (cases "arrayFind (\<lambda>x. Some (unit_id x) = asId tg) (units w)")
  case None
  then show ?thesis by (simp add: executeGuardCommand_def delete_advances)
next
  case (Some g)
  define w1 where "w1 = (if getDistance (unit_position u) (unit_position g) > Fin 3
                    then issueNew ''move_'' (unit_id u) Move (TargetPos (unit_position g)) (Fin 6) ai w
                    else w)"
  have a1: "advances t w w1" using assms by (simp add: w1_def issueNew_advances)
  then have t1: "t \<le> now w1" using assms by (rule advances_now)
  have eq: "executeGuardCommand u tg w =
      (case filter (\<lambda>threat. getDistance (thr_position threat) (unit_position g) < Fin 8)
              (mapValues (threatMap w1)) of
         [] \<Rightarrow> w1
       | first # rest \<Rightarrow>
           issueNew ''attack_'' (unit_id u) Attack
             (TargetId (thr_enemyUnitId (closestTo (unit_position u) thr_position first rest)))
             (Fin 9) ai w1)"
    using Some unfolding executeGuardCommand_def w1_def Let_def by simp
  have "advances t w1 (executeGuardCommand u tg w)"
    unfolding eq using issueNew_advances [OF t1] by (simp split: list.split)
  with a1 show ?thesis by (rule advances_trans)
qed

lemma executeCommand_advances: "t \<le> now w \<Longrightarrow> advances t w (executeCommand c u bs w)"
  by (cases "cmd_type c")
    (simp_all add: executeCommand_def executeMoveCommand_advances executeAttackCommand_advances
      executeGatherCommand_advances executePatrolCommand_advances executeGuardCommand_advances)


lemma processLoop_inv:
  "t \<le> now w
   \<Longrightarrow> (\<forall>j < i. \<forall>k c. j < length (activeCommands w) \<longrightarrow> activeCommands w ! j = Some (k, c)
          \<longrightarrow> expired t c \<longrightarrow> k \<in> set rm)
   \<Longrightarrow> processLoop t bs i rm w = (rm', w')
   \<Longrightarrow> (\<forall>j < length (activeCommands w'). \<forall>k c. activeCommands w' ! j = Some (k, c)
          \<longrightarrow> expired t c \<longrightarrow> k \<in> set rm')
       \<and> now w \<le> now w'"
proof (induction t bs i rm w rule: processLoop.induct)
  case (1 t bs i rm w)
  note time = "1.prems"(1) and inv = "1.prems"(2) and res = "1.prems"(3)
  show ?case
  proof (cases "i < length (activeCommands w)")
    case False
    have "processLoop t bs i rm w = (rm, w)"
      using False by (subst processLoop.simps) simp
    with res have "rm' = rm" "w' = w" by simp_all
    moreover have "j < i" if "j < length (activeCommands w)" for j
      using that False by simp
    ultimately show ?thesis using inv by blast
  next
    case inRange: True
    show ?thesis
    proof (cases "activeCommands w ! i")
      case None
      have "processLoop t bs i rm w = processLoop t bs (Suc i) rm w"
        using inRange None by (subst processLoop.simps) simp
      with res have r: "processLoop t bs (Suc i) rm w = (rm', w')" by simp
      have "\<forall>j < Suc i. \<forall>k c. j < length (activeCommands w) \<longrightarrow> activeCommands w ! j = Some (k, c)
          \<longrightarrow> expired t c \<longrightarrow> k \<in> set rm"
      proof (intro allI impI)
        fix j k c
        assume j: "j < Suc i" "j < length (activeCommands w)" "activeCommands w ! j = Some (k, c)"
          and old: "expired t c"
        from j(3) None have "j \<noteq> i" by auto
        with j(1) have "j < i" by simp
        with inv j old show "k \<in> set rm" by blast
      qed
      from "1.IH"(1) [OF inRange None time this r] show ?thesis .
    next
      case (Some entry)
      obtain commandId command where entry: "entry = (commandId, command)" by (cases entry)
      show ?thesis
      proof (cases "arrayFind (\<lambda>u. unit_id u = cmd_unitId command) (units w)")
        case noUnit: None
        have "processLoop t bs i rm w = processLoop t bs (Suc i) (rm @ [commandId]) w"
          using inRange Some entry noUnit by (subst processLoop.simps) simp
        with res have r: "processLoop t bs (Suc i) (rm @ [commandId]) w = (rm', w')" by simp
        have "\<forall>j < Suc i. \<forall>k c. j < length (activeCommands w) \<longrightarrow> activeCommands w ! j = Some (k, c)
          \<longrightarrow> expired t c \<longrightarrow> k \<in> set (rm @ [commandId])"
        proof (intro allI impI)
          fix j k c
          assume j: "j < Suc i" "j < length (activeCommands w)" "activeCommands w ! j = Some (k, c)"
            and old: "expired t c"
          show "k \<in> set (rm @ [commandId])"
          proof (cases "j = i")
            case True
            with j(3) \<open>activeCommands w ! i = Some entry\<close> entry show ?thesis by simp
          next
            case False
            with j(1) have "j < i" by simp
            with inv j old have "k \<in> set rm" by blast
            then show ?thesis by simp
          qed
        qed
        from "1.IH"(2) [OF inRange Some entry [symmetric] noUnit time this r] show ?thesis .
      next
        case (Some unit)
        let ?rm = "if Fin (of_int t) - cmd_createdAt command > Fin 60000
                       then rm @ [commandId] else rm"
        let ?w = "executeCommand command unit bs w"
        have "processLoop t bs i rm w = processLoop t bs (Suc i) ?rm ?w"
          using inRange \<open>activeCommands w ! i = Some entry\<close> entry Some
          by (subst processLoop.simps) simp
        with res have r: "processLoop t bs (Suc i) ?rm ?w = (rm', w')" by simp
        from executeCommand_advances [OF time, of command unit bs]
        have ev: "evolves t (activeCommands w) (activeCommands ?w)" and clock: "now w \<le> now ?w"
          by (simp_all add: advances_def)
        have time2: "t \<le> now ?w" using time clock by simp
        have inv2: "\<forall>j < Suc i. \<forall>k c. j < length (activeCommands ?w) \<longrightarrow> activeCommands ?w ! j = Some (k, c)
          \<longrightarrow> expired t c \<longrightarrow> k \<in> set ?rm"
        proof (intro allI impI)
          fix j k c
          assume j: "j < Suc i" "j < length (activeCommands ?w)" "activeCommands ?w ! j = Some (k, c)"
            and old: "expired t c"
          from ev j(2,3) old have before: "j < length (activeCommands w)" "activeCommands w ! j = Some (k, c)"
            unfolding evolves_def by blast+
          show "k \<in> set ?rm"
          proof (cases "j = i")
            case True
            with before \<open>activeCommands w ! i = Some entry\<close> entry have "k = commandId" "c = command" by simp_all
            with old show ?thesis by (simp add: expired_def)
          next
            case False
            with j(1) have "j < i" by simp
            with inv before old have "k \<in> set rm" by blast
            then show ?thesis by simp
          qed
        qed
        from "1.IH"(3) [OF inRange \<open>activeCommands w ! i = Some entry\<close> entry [symmetric] Some time2 inv2 r] clock
        show ?thesis by simp
      qed
    qed
  qed
qed

lemma foldl_mapDelete_length [simp]: "length (foldl (\<lambda>m i. mapDelete i m) m rm) = length m"
  by (induction rm arbitrary: m) auto

lemma foldl_mapDelete_nth:
  "j < length m \<Longrightarrow> foldl (\<lambda>m i. mapDelete i m) m rm ! j = Some (k, c)
     \<Longrightarrow> m ! j = Some (k, c) \<and> k \<notin> set rm"
proof (induction rm arbitrary: m)
  case Nil
  then show ?case by simp
next
  case (Cons r rm)
  from Cons.IH [of "mapDelete r m"] Cons.prems
  have "mapDelete r m ! j = Some (k, c)" "k \<notin> set rm" by simp_all
  with nth_mapDelete [OF Cons.prems(1), of r k c] show ?case by simp
qed

lemma set_mapEntries: "set (mapEntries m) = {e. Some e \<in> set m}"
  by (induction m rule: mapEntries.induct) auto

text \<open>
  C7. A command that is older than 60000 ms at the time \<open>processCommands\<close> reads the
  clock (\<open>t - createdAt > 60000\<close>, the test of the source) is not in the table after the
  step, whatever its kind and whatever its execution did. The commands issued during the
  step carry a later clock reading and are not old.
\<close>

theorem processCommands_drops_old_commands:
  assumes "Fin (of_int (fst (Date_now w))) - cmd_createdAt c > Fin 60000"
  shows "c \<notin> set (mapValues (activeCommands (processCommands buildings w)))"
proof
  obtain t w1 where d: "Date_now w = (t, w1)" by (cases "Date_now w")
  obtain rm w2 where l: "processLoop t buildings 0 [] w1 = (rm, w2)"
    by (cases "processLoop t buildings 0 [] w1")
  have res: "activeCommands (processCommands buildings w)
               = foldl (\<lambda>m i. mapDelete i m) (activeCommands w2) rm"
    using d l by (simp add: processCommands_def)
  from now_Date_now [of w] d have "t \<le> now w1" by simp
  from processLoop_inv [OF this _ l]
  have inv: "\<forall>j < length (activeCommands w2). \<forall>k c. activeCommands w2 ! j = Some (k, c)
          \<longrightarrow> expired t c \<longrightarrow> k \<in> set rm" by simp
  assume "c \<in> set (mapValues (activeCommands (processCommands buildings w)))"
  then obtain k where "Some (k, c) \<in> set (foldl (\<lambda>m i. mapDelete i m) (activeCommands w2) rm)"
    by (auto simp add: res mapValues_def set_mapEntries)
  then obtain j where j: "j < length (activeCommands w2)"
    "foldl (\<lambda>m i. mapDelete i m) (activeCommands w2) rm ! j = Some (k, c)"
    by (auto simp add: in_set_conv_nth)
  from foldl_mapDelete_nth [OF j] have "activeCommands w2 ! j = Some (k, c)" "k \<notin> set rm" by simp_all
  moreover have "expired t c" using assms d by (simp add: expired_def)
  ultimately show False using inv j(1) by blast
qed


theorem processCommands_drops_old_commands_witness:
  "Fin (of_int (fst (Date_now (issueCommand idleCommand
          (newController exampleTerrain [exampleUnit ''u1'' \<lparr>posX = Fin 2, posY = Fin 2\<rparr>] 70000 [])))))
     - cmd_createdAt idleCommand > Fin 60000
   \<and> idleCommand \<in> set (mapValues (activeCommands (issueCommand idleCommand
          (newController exampleTerrain [exampleUnit ''u1'' \<lparr>posX = Fin 2, posY = Fin 2\<rparr>] 70000 []))))
   \<and> idleCommand \<notin> set (mapValues (activeCommands (processCommands []
          (issueCommand idleCommand
            (newController exampleTerrain [exampleUnit ''u1'' \<lparr>posX = Fin 2, posY = Fin 2\<rparr>] 70000 [])))))"
proof -
  let ?w = "issueCommand idleCommand
          (newController exampleTerrain [exampleUnit ''u1'' \<lparr>posX = Fin 2, posY = Fin 2\<rparr>] 70000 [])"
  have old: "Fin (of_int (fst (Date_now ?w))) - cmd_createdAt idleCommand > Fin 60000"
    by (simp add: Date_now_def issueCommand_def newController_def idleCommand_def)
  have "idleCommand \<in> set (mapValues (activeCommands ?w))"
    by (simp add: issueCommand_def newController_def mapValues_def)
  with old processCommands_drops_old_commands [OF old, of "[]"] show ?thesis by simp
qed

text \<open>
  C4 fails on the code. \<open>executeMoveCommand\<close> deletes the key \<open>unit.id\<close>, while the
  command is stored under its own id: a unit that stands on the target of its move command
  keeps the command.
\<close>

theorem reached_move_command_stays:
  "map cmd_id
     (commandsOf ''u1''
        (processCommands []
           (moveUnit ''u1'' \<lparr>posX = Fin 2, posY = Fin 2\<rparr> (Fin 5)
              (newController exampleTerrain [exampleUnit ''u1'' \<lparr>posX = Fin 2, posY = Fin 2\<rparr>]
                 1000 []))))
   = [''move_u1_1000'']"
  by (simp add: commandsOf_def moveUnit_def issueNew_def newCommand_def
      newController_def Date_now_def issueCommand_def mapValues_def numberToString_def
      digitsOf.simps processCommands_def processLoop.simps executeCommand_def
      executeMoveCommand_def exampleUnit_def Let_def)

subsection \<open>Threat entries\<close>

lemma threatMap_issueNew [simp]: "threatMap (issueNew p u ty tg pr is w) = threatMap w"
  by (simp add: issueNew_def newCommand_def issueCommand_def Date_now_def Let_def split: prod.split list.split)

lemma threatMap_changeUnit [simp]: "threatMap (changeUnit i f w) = threatMap w"
  by (simp add: changeUnit_def)

lemma threatMap_executeMoveCommand [simp]: "threatMap (executeMoveCommand u tg bs w) = threatMap w"
  by (simp add: executeMoveCommand_def Let_def split: prod.split)


lemma threatMap_performAttack [simp]: "threatMap (performAttack a tg w) = threatMap w"
  by (simp add: performAttack_def Let_def)

lemma threatMap_executeAttackCommand [simp]: "threatMap (executeAttackCommand u tg w) = threatMap w"
  by (simp add: executeAttackCommand_def Let_def split: option.split)

lemma threatMap_executeGatherCommand [simp]: "threatMap (executeGatherCommand u tg w) = threatMap w"
  by (simp add: executeGatherCommand_def Let_def split: option.split)

lemma threatMap_executePatrolCommand [simp]: "threatMap (executePatrolCommand u tg bs w) = threatMap w"
  by (simp add: executePatrolCommand_def Let_def)

lemma threatMap_executeGuardCommand [simp]: "threatMap (executeGuardCommand u tg w) = threatMap w"
  by (simp add: executeGuardCommand_def Let_def split: option.split list.split)

lemma threatMap_executeCommand [simp]: "threatMap (executeCommand c u bs w) = threatMap w"
  by (cases "cmd_type c") (simp_all add: executeCommand_def)


lemma threatMap_processLoop: "processLoop t bs i rm w = (rm', w') \<Longrightarrow> threatMap w' = threatMap w"
proof (induction t bs i rm w rule: processLoop.induct)
  case (1 t bs i rm w)
  show ?case
  proof (cases "i < length (activeCommands w)")
    case False
    with "1.prems" show ?thesis by (subst (asm) processLoop.simps) simp
  next
    case inRange: True
    show ?thesis
    proof (cases "activeCommands w ! i")
      case None
      with inRange "1.prems" have "processLoop t bs (Suc i) rm w = (rm', w')"
        by (subst (asm) processLoop.simps) simp
      from "1.IH"(1) [OF inRange None this] show ?thesis .
    next
      case (Some entry)
      obtain commandId command where entry: "entry = (commandId, command)" by (cases entry)
      show ?thesis
      proof (cases "arrayFind (\<lambda>u. unit_id u = cmd_unitId command) (units w)")
        case noUnit: None
        with inRange Some entry "1.prems"
        have "processLoop t bs (Suc i) (rm @ [commandId]) w = (rm', w')"
          by (subst (asm) processLoop.simps) simp
        from "1.IH"(2) [OF inRange Some entry [symmetric] noUnit this] show ?thesis .
      next
        case (Some unit)
        with inRange \<open>activeCommands w ! i = Some entry\<close> entry "1.prems"
        have "processLoop t bs (Suc i)
                (if Fin (of_int t) - cmd_createdAt command > Fin 60000
                       then rm @ [commandId] else rm)
                (executeCommand command unit bs w) = (rm', w')"
          by (subst (asm) processLoop.simps) simp
        from "1.IH"(3) [OF inRange \<open>activeCommands w ! i = Some entry\<close> entry [symmetric] Some this]
        show ?thesis by simp
      qed
    qed
  qed
qed

lemma threatMap_processCommands [simp]: "threatMap (processCommands bs w) = threatMap w"
proof -
  obtain t w1 where d: "Date_now w = (t, w1)" by (cases "Date_now w")
  obtain rm w2 where l: "processLoop t bs 0 [] w1 = (rm, w2)" by (cases "processLoop t bs 0 [] w1")
  from d have "threatMap w1 = threatMap w" by (auto simp add: Date_now_def split: list.splits)
  with threatMap_processLoop [OF l] d l show ?thesis by (simp add: processCommands_def)
qed

lemma foldl_preserves:
  "(\<And>w x. g (f w x) = g w) \<Longrightarrow> g (foldl f w xs) = g w"
  by (induction xs arbitrary: w) auto

lemma threatMap_foldl:
  "(\<And>w x. threatMap (f w x) = threatMap w) \<Longrightarrow> threatMap (foldl f w xs) = threatMap w"
  by (rule foldl_preserves)


lemma threatMap_updateAttackGroup [simp]: "threatMap (updateAttackGroup grp es w) = threatMap w"
  by (simp add: updateAttackGroup_def Let_def threatMap_foldl split: option.split list.split)

lemma threatMap_updateDefenseGroup [simp]: "threatMap (updateDefenseGroup grp es w) = threatMap w"
  by (simp add: updateDefenseGroup_def Let_def threatMap_foldl split: option.split list.split prod.split)

lemma threatMap_updateScoutGroup [simp]: "threatMap (updateScoutGroup grp w) = threatMap w"
  by (simp add: updateScoutGroup_def Let_def threatMap_foldl split: prod.split)

lemma threatMap_updateRaidGroup [simp]: "threatMap (updateRaidGroup grp es w) = threatMap w"
  by (simp add: updateRaidGroup_def Let_def threatMap_foldl split: list.split)

lemma threatMap_updateCombatGroups [simp]: "threatMap (updateCombatGroups es w) = threatMap w"
  unfolding updateCombatGroups_def
  by (rule threatMap_foldl) (simp add: Let_def split: prod.split Role.split)

lemma threatMap_executeUnitBehaviors [simp]: "threatMap (executeUnitBehaviors w) = threatMap w"
  unfolding executeUnitBehaviors_def
  by (rule threatMap_foldl) (simp add: Let_def split: list.split)


lemma mapEntries_mapDelete:
  "e \<in> set (mapEntries (mapDelete k m)) \<longleftrightarrow> e \<in> set (mapEntries m) \<and> fst e \<noteq> k"
proof (induction k m rule: mapDelete.induct)
  case (1 k)
  then show ?case by simp
next
  case (2 k m)
  then show ?case by simp
next
  case (3 k k' v m)
  then show ?case by (cases "k' = k") auto
qed

lemma mapEntries_mapSet: "set (mapEntries (mapSet k v m)) \<subseteq> insert (k, v) (set (mapEntries m))"
  by (induction k v m rule: mapSet.induct) auto

lemma mapGet_mapDelete: "mapGet i (mapDelete k m) = (if i = k then None else mapGet i m)"
  by (induction k m rule: mapDelete.induct) auto

lemma mapGet_Some_entries: "mapGet i m = Some v \<Longrightarrow> (i, v) \<in> set (mapEntries m)"
  by (induction i m rule: mapGet.induct) (auto split: if_splits)

lemma pruneStep_eq: "(\<lambda>m (i, th). if P th then mapDelete i m else m) = pruneStep P"
  by (simp add: fun_eq_iff pruneStep_def)

lemma prune_entries:
  "e \<in> set (mapEntries (foldl (pruneStep P) m es))
    \<Longrightarrow> e \<in> set (mapEntries m) \<and> (\<forall>th. (fst e, th) \<in> set es \<longrightarrow> \<not> P th)"
proof (induction es arbitrary: m)
  case Nil
  then show ?case by simp
next
  case (Cons x es)
  from Cons.prems have "e \<in> set (mapEntries (foldl (pruneStep P) (pruneStep P m x) es))" by simp
  from Cons.IH [OF this]
  have ih: "e \<in> set (mapEntries (pruneStep P m x))"
    "\<forall>th. (fst e, th) \<in> set es \<longrightarrow> \<not> P th" by blast+
  from ih(1) have m: "e \<in> set (mapEntries m)" and x: "P (snd x) \<longrightarrow> fst e \<noteq> fst x"
    by (simp_all add: pruneStep_def mapEntries_mapDelete split: if_splits)
  have "\<not> P th" if "(fst e, th) \<in> set (x # es)" for th
  proof (cases "(fst e, th) = x")
    case True
    with x show ?thesis by auto
  next
    case False
    with that ih(2) show ?thesis by simp
  qed
  with m show ?case by blast
qed

lemma prune_mapGet:
  "mapGet i m = None \<or> (\<exists>th. (i, th) \<in> set es \<and> P th)
    \<Longrightarrow> mapGet i (foldl (pruneStep P) m es) = None"
proof (induction es arbitrary: m)
  case Nil
  then show ?case by simp
next
  case (Cons x es)
  have "mapGet i (pruneStep P m x) = None \<or> (\<exists>th. (i, th) \<in> set es \<and> P th)"
  proof (cases "mapGet i m = None")
    case True
    then show ?thesis by (simp add: pruneStep_def mapGet_mapDelete)
  next
    case False
    with Cons.prems obtain th where th: "(i, th) \<in> set (x # es)" "P th" by blast
    show ?thesis
    proof (cases "x = (i, th)")
      case True
      with th(2) show ?thesis by (simp add: pruneStep_def mapGet_mapDelete)
    next
      case False
      with th show ?thesis by auto
    qed
  qed
  from Cons.IH [OF this] show ?case by simp
qed

lemma refresh_entries:
  "e \<in> set (mapEntries (foldl (\<lambda>m enemy. mapSet (unit_id enemy) (mk enemy) m) m es))
    \<Longrightarrow> e \<in> set (mapEntries m) \<or> snd e \<in> mk ` set es"
proof (induction es arbitrary: m)
  case Nil
  then show ?case by simp
next
  case (Cons x es)
  from Cons.IH [of "mapSet (unit_id x) (mk x) m"] Cons.prems
  have "e \<in> set (mapEntries (mapSet (unit_id x) (mk x) m)) \<or> snd e \<in> mk ` set es" by simp
  with mapEntries_mapSet [of "unit_id x" "mk x" m] show ?case by auto
qed

lemma refresh_mapGet:
  "i \<notin> unit_id ` set es
    \<Longrightarrow> mapGet i (foldl (\<lambda>m enemy. mapSet (unit_id enemy) (mk enemy) m) m es) = mapGet i m"
  by (induction es arbitrary: m) (auto simp add: mapGet_mapSet_other)

lemma updateThreatAssessment_fresh:
  assumes "stale (fst (Date_now w)) th"
  shows "th \<notin> set (mapValues (threatMap (updateThreatAssessment enemyUnits w)))"
    and "mapGet i (threatMap w) = Some th \<Longrightarrow> i \<notin> unit_id ` set enemyUnits
          \<Longrightarrow> mapGet i (threatMap (updateThreatAssessment enemyUnits w)) = None"
proof -
  obtain t w1 where d: "Date_now w = (t, w1)" by (cases "Date_now w")
  then have tm: "threatMap w1 = threatMap w" by (auto simp add: Date_now_def split: list.splits)
  let ?P = "\<lambda>th. Fin (of_int t) - thr_lastSeen th > Fin 30000"
  let ?pruned = "foldl (pruneStep ?P) (threatMap w) (mapEntries (threatMap w))"
  let ?mk = "\<lambda>enemy. \<lparr>thr_enemyUnitId = unit_id enemy,
                        thr_position = unit_position enemy,
                        thr_threatLevel = calculateThreatLevel enemy,
                        thr_unitType = unit_type enemy,
                        thr_lastSeen = Fin (of_int t),
                        thr_isEngaged = False\<rparr>"
  have res: "threatMap (updateThreatAssessment enemyUnits w)
              = foldl (\<lambda>m enemy. mapSet (unit_id enemy) (?mk enemy) m) ?pruned enemyUnits"
    using d tm by (simp add: updateThreatAssessment_def Let_def pruneStep_eq)
  have st: "?P th" using assms d by (simp add: stale_def)
  show "th \<notin> set (mapValues (threatMap (updateThreatAssessment enemyUnits w)))"
  proof
    assume "th \<in> set (mapValues (threatMap (updateThreatAssessment enemyUnits w)))"
    then obtain k where e: "(k, th) \<in> set (mapEntries (foldl (\<lambda>m enemy. mapSet (unit_id enemy) (?mk enemy) m) ?pruned enemyUnits))"
      unfolding res by (auto simp add: mapValues_def)
    from refresh_entries [OF e] consider "(k, th) \<in> set (mapEntries ?pruned)" | "th \<in> ?mk ` set enemyUnits"
      by auto
    then show False
    proof cases
      case 1
      from prune_entries [OF 1] st show False by auto
    next
      case 2
      then have "thr_lastSeen th = Fin (of_int t)" by auto
      with st show False by simp
    qed
  qed
  show "mapGet i (threatMap (updateThreatAssessment enemyUnits w)) = None"
    if "mapGet i (threatMap w) = Some th" "i \<notin> unit_id ` set enemyUnits"
  proof -
    from that(1) have "(i, th) \<in> set (mapEntries (threatMap w))" by (rule mapGet_Some_entries)
    with st have "mapGet i ?pruned = None" by (intro prune_mapGet) blast
    with refresh_mapGet [OF that(2), of ?mk ?pruned] show ?thesis unfolding res by simp
  qed
qed


text \<open>
  C8. A threat entry that is more than 30 s old when \<open>update\<close> reads the clock for the
  threat assessment is not among the entries \<open>getThreatMap\<close> returns after the update,
  and an enemy id whose entry is that old and that is not in the enemy snapshot has no
  entry at all. The behaviours read the threat table only inside \<open>update\<close>, after the
  assessment: command processing (the guard command), the group updates and the unit
  behaviours all run on the table the assessment left, which no later phase changes.
\<close>

theorem stale_threats_absent_after_update:
  assumes "Fin (of_int (fst (Date_now w))) - thr_lastSeen th > Fin 30000"
  shows "th \<notin> set (getThreatMap (update us buildings enemyUnits dt w))
     \<and> (mapGet i (threatMap w) = Some th \<and> i \<notin> unit_id ` set enemyUnits
          \<longrightarrow> mapGet i (threatMap (update us buildings enemyUnits dt w)) = None)
     \<and> (let w1 = updateThreatAssessment enemyUnits (w\<lparr>units := us\<rparr>)
        in th \<notin> set (mapValues (threatMap w1))
         \<and> threatMap (processCommands buildings w1) = threatMap w1
         \<and> threatMap (updateCombatGroups enemyUnits (processCommands buildings w1)) = threatMap w1
         \<and> threatMap (update us buildings enemyUnits dt w) = threatMap w1)"
proof -
  let ?w0 = "w\<lparr>units := us\<rparr>"
  let ?w1 = "updateThreatAssessment enemyUnits ?w0"
  have clock: "fst (Date_now ?w0) = fst (Date_now w)"
    by (simp add: Date_now_def split: list.split)
  have st: "stale (fst (Date_now ?w0)) th"
    using assms by (simp add: stale_def clock)
  have final: "threatMap (update us buildings enemyUnits dt w) = threatMap ?w1"
    by (simp add: update_def Let_def)
  have "th \<notin> set (mapValues (threatMap ?w1))"
    using st by (rule updateThreatAssessment_fresh(1))
  moreover have "mapGet i (threatMap ?w1) = None"
    if "mapGet i (threatMap w) = Some th" "i \<notin> unit_id ` set enemyUnits"
    using updateThreatAssessment_fresh(2) [OF st, of i enemyUnits] that by simp
  ultimately show ?thesis
    by (simp add: getThreatMap_def final Let_def)
qed

theorem stale_threats_absent_after_update_witness:
  "Fin (of_int (fst (Date_now
        ((newController exampleTerrain [] 40000 [])\<lparr>threatMap := [Some (''e1'', oldThreat)]\<rparr>))))
      - thr_lastSeen oldThreat > Fin 30000
   \<and> oldThreat \<in> set (getThreatMap
        ((newController exampleTerrain [] 40000 [])\<lparr>threatMap := [Some (''e1'', oldThreat)]\<rparr>))
   \<and> oldThreat \<notin> set (getThreatMap (update [] [] [] (Fin 16)
        ((newController exampleTerrain [] 40000 [])\<lparr>threatMap := [Some (''e1'', oldThreat)]\<rparr>)))
   \<and> mapGet ''e1'' (threatMap (update [] [] [] (Fin 16)
        ((newController exampleTerrain [] 40000 [])\<lparr>threatMap := [Some (''e1'', oldThreat)]\<rparr>))) = None"
proof -
  let ?w = "(newController exampleTerrain [] 40000 [])\<lparr>threatMap := [Some (''e1'', oldThreat)]\<rparr>"
  have old: "Fin (of_int (fst (Date_now ?w))) - thr_lastSeen oldThreat > Fin 30000"
    by (simp add: Date_now_def newController_def oldThreat_def)
  have "oldThreat \<in> set (getThreatMap ?w)"
    by (simp add: getThreatMap_def mapValues_def)
  moreover have "mapGet ''e1'' (threatMap ?w) = Some oldThreat" by simp
  ultimately show ?thesis
    using old stale_threats_absent_after_update [OF old, of "[]" "[]" "[]" "Fin 16" "''e1''"]
    by simp
qed

subsection \<open>Paths\<close>

text \<open>
  C2 fails on the code. When the open set runs empty \<open>findPath\<close> returns \<open>[end]\<close>, one
  point, not \<open>[start, end]\<close>: from the walled-in corner \<open>(0,0)\<close> to \<open>(2,2)\<close> the result
  is \<open>[(2,2)]\<close>.
\<close>

theorem findPath_fallback_is_goal_only:
  "findPath walledGrid \<lparr>posX = Fin 0, posY = Fin 0\<rparr> \<lparr>posX = Fin 2, posY = Fin 2\<rparr> [] []
     = [\<lparr>posX = Fin 2, posY = Fin 2\<rparr>]"
  by (simp add: findPath_def findPathLoop.simps Let_def getNeighbors_def
      considerNeighbor_def isPassable_def tileAt_def arrayGet_def walledGrid_def
      grassTile_def mountainTile_def)

lemma arrayIndex_of_int [simp]: "arrayIndex (Fin (of_int x)) = (if 0 \<le> x then Some (nat x) else None)"
  by simp










lemma last_reconstructPath [simp]: "last (reconstructPath n) = node_position n"
  by (induction n rule: reconstructPath.induct) auto










lemma getDistance_self: "inGrid W H p \<Longrightarrow> getDistance p p < Fin 1"
  by (auto simp add: inGrid_def tileP_def)






text \<open>The chain of parents of a node never visits a tile twice, so a path is no
  longer than the grid has tiles.\<close>

lemma reconstructPath_snoc:
  "reconstructPath (PathNode q g h f (Some cur)) = reconstructPath cur @ [q]"
  by simp









text \<open>The plain grid. With every movement cost 1 the search never looks back: the node
  it takes from the open set is each time the one it has just added for the step towards
  the goal, so the path is the greedy one.\<close>

lemma gstep_0 [simp]: "gstep s t 0 = s"
  by (simp add: gstep_def)












lemma greedyNode_position [simp]: "node_position (greedyNode x0 y0 x1 y1 i) = greedy x0 y0 x1 y1 i"
  by (cases i) (simp_all add: Let_def greedy_def)






































subsection \<open>Resource zones\<close>

text \<open>Rounding to doubles: the result is a multiple of the spacing at its exponent, it
  does not pass a double that the argument does not pass, and it is a double (rounding it
  again changes nothing).\<close>

declare binadeUp.simps [simp del]

lemma binadeUp_bounds: "e0 \<le> 1023 \<Longrightarrow> e0 \<le> binadeUp x e0 \<and> binadeUp x e0 \<le> 1023"
proof (induction x e0 rule: binadeUp.induct)
  case (1 x e)
  show ?case
  proof (cases "e < 1023 \<and> 2 powi (e + 1) \<le> x")
    case True
    with "1.IH" have "e + 1 \<le> binadeUp x (e + 1) \<and> binadeUp x (e + 1) \<le> 1023" by simp
    with True show ?thesis by (subst (1 2) binadeUp.simps) simp
  next
    case False
    with "1.prems" show ?thesis by (subst (1 2) binadeUp.simps) auto
  qed
qed

lemma binadeUp_upper: "binadeUp x e0 < 1023 \<Longrightarrow> x < 2 powi (binadeUp x e0 + 1)"
proof (induction x e0 rule: binadeUp.induct)
  case (1 x e)
  show ?case
  proof (cases "e < 1023 \<and> 2 powi (e + 1) \<le> x")
    case True
    then have eq: "binadeUp x e = binadeUp x (e + 1)" by (subst binadeUp.simps) simp
    with "1.IH" True "1.prems" show ?thesis by simp
  next
    case False
    then have eq: "binadeUp x e = e" by (subst binadeUp.simps) auto
    with False "1.prems" show ?thesis by auto
  qed
qed

lemma binadeUp_lower: "2 powi e0 \<le> x \<Longrightarrow> 2 powi (binadeUp x e0) \<le> x"
proof (induction x e0 rule: binadeUp.induct)
  case (1 x e)
  show ?case
  proof (cases "e < 1023 \<and> 2 powi (e + 1) \<le> x")
    case True
    then have eq: "binadeUp x e = binadeUp x (e + 1)" by (subst binadeUp.simps) simp
    with "1.IH" True show ?thesis by simp
  next
    case False
    then have eq: "binadeUp x e = e" by (subst binadeUp.simps) auto
    with "1.prems" show ?thesis by simp
  qed
qed

lemma binadeUp_eq:
  "e0 \<le> e \<Longrightarrow> e \<le> 1023 \<Longrightarrow> e = e0 \<or> 2 powi e \<le> x \<Longrightarrow> x < 2 powi (e + 1) \<or> e = 1023
     \<Longrightarrow> binadeUp x e0 = e"
proof (induction x e0 rule: binadeUp.induct)
  case (1 x e0)
  show ?case
  proof (cases "e0 = e")
    case True
    with "1.prems" have "\<not> (e0 < 1023 \<and> 2 powi (e0 + 1) \<le> x)" by auto
    then show ?thesis using True by (subst binadeUp.simps) auto
  next
    case False
    with "1.prems" have lt: "e0 + 1 \<le> e" "2 powi e \<le> x" by auto
    have "(2::real) powi (e0 + 1) \<le> 2 powi e" using lt(1) by (intro power_int_increasing) auto
    with lt have step: "e0 < 1023 \<and> 2 powi (e0 + 1) \<le> x" using "1.prems"(2) by auto
    then have "binadeUp x e0 = binadeUp x (e0 + 1)" by (subst binadeUp.simps) simp
    also have "\<dots> = e" using "1.IH" [OF step lt(1) "1.prems"(2) _ "1.prems"(4)] lt(2) by simp
    finally show ?thesis .
  qed
qed

lemma binade_bounds: "- 1022 \<le> binade x \<and> binade x \<le> 1023"
  unfolding binade_def using binadeUp_bounds [of "- 1022" "\<bar>x\<bar>"] by simp

lemma binade_upper: "binade x < 1023 \<Longrightarrow> \<bar>x\<bar> < 2 powi (binade x + 1)"
  unfolding binade_def by (rule binadeUp_upper)

lemma binade_lower: "2 powi (- 1022) \<le> \<bar>x\<bar> \<Longrightarrow> 2 powi (binade x) \<le> \<bar>x\<bar>"
  unfolding binade_def by (rule binadeUp_lower)

lemma binade_mono: "\<bar>x\<bar> \<le> \<bar>y\<bar> \<Longrightarrow> binade x \<le> binade y"
proof (rule ccontr)
  assume le: "\<bar>x\<bar> \<le> \<bar>y\<bar>" and "\<not> binade x \<le> binade y"
  then have lt: "binade y < binade x" by simp
  with binade_bounds [of x] have "binade y < 1023" by simp
  from binade_upper [OF this] have y: "\<bar>y\<bar> < 2 powi (binade y + 1)" .
  have "- 1022 < binade x" using lt binade_bounds [of y] by simp
  have "2 powi (- 1022) \<le> \<bar>x\<bar>"
  proof (rule ccontr)
    assume "\<not> 2 powi (- 1022) \<le> \<bar>x\<bar>"
    then have "\<bar>x\<bar> < 2 powi (- 1022 + 1)"
      by (smt (verit) power_int_increasing [of "- 1022" "- 1022 + 1" "2::real"])
    then have "binade x = - 1022" unfolding binade_def by (intro binadeUp_eq) auto
    with \<open>- 1022 < binade x\<close> show False by simp
  qed
  from binade_lower [OF this] have "2 powi (binade x) \<le> \<bar>x\<bar>" .
  moreover have "(2::real) powi (binade y + 1) \<le> 2 powi (binade x)"
    using lt by (intro power_int_increasing) auto
  ultimately show False using y le by simp
qed

lemma roundEven_bounds: "y - 1 / 2 \<le> of_int (roundEven y) \<and> of_int (roundEven y) \<le> y + 1 / 2"
  unfolding roundEven_def Let_def by (auto; linarith)

lemma roundEven_of_int [simp]: "roundEven (of_int k) = k"
  by (simp add: roundEven_def)

lemma roundEven_le_int: "y \<le> of_int n \<Longrightarrow> roundEven y \<le> n"
proof -
  assume le: "y \<le> of_int n"
  then have f: "\<lfloor>y\<rfloor> \<le> n" by (simp add: floor_le_iff)
  show ?thesis
  proof (cases "\<lfloor>y\<rfloor> = n")
    case True
    with le have "y - of_int \<lfloor>y\<rfloor> \<le> 0" by simp
    then show ?thesis using True by (simp add: roundEven_def Let_def)
  next
    case False
    with f have "\<lfloor>y\<rfloor> + 1 \<le> n" by simp
    then show ?thesis by (simp add: roundEven_def Let_def)
  qed
qed

lemma roundEven_ge_int: "of_int n \<le> y \<Longrightarrow> n \<le> roundEven y"
proof -
  assume "of_int n \<le> y"
  then have "n \<le> \<lfloor>y\<rfloor>" by (simp add: le_floor_iff)
  then show ?thesis by (simp add: roundEven_def Let_def)
qed


lemma binade_gt: "- 1022 < binade x \<Longrightarrow> 2 powi (binade x) \<le> \<bar>x\<bar>"
proof -
  assume gt: "- 1022 < binade x"
  have "2 powi (- 1022) \<le> \<bar>x\<bar>"
  proof (rule ccontr)
    assume "\<not> 2 powi (- 1022) \<le> \<bar>x\<bar>"
    moreover have "(2::real) powi (- 1022) \<le> 2 powi (- 1022 + 1)"
      by (intro power_int_increasing) auto
    ultimately have "\<bar>x\<bar> < 2 powi (- 1022 + 1)" by linarith
    then have "binade x = - 1022" unfolding binade_def by (intro binadeUp_eq) auto
    with gt show False by simp
  qed
  then show ?thesis by (rule binade_lower)
qed

lemma ulp_pos: "0 < (2::real) powi e"
  by (simp add: zero_less_power_int)

lemma ulp_le: "2 powi (- 1074) \<le> \<bar>x\<bar> \<Longrightarrow> 2 powi (binade x - 52) \<le> \<bar>x\<bar>"
proof (cases "binade x = - 1022")
  case True
  assume "2 powi (- 1074) \<le> \<bar>x\<bar>"
  with True show ?thesis by simp
next
  case False
  with binade_bounds [of x] have "- 1022 < binade x" by simp
  from binade_gt [OF this] have "2 powi (binade x) \<le> \<bar>x\<bar>" .
  moreover have "(2::real) powi (binade x - 52) \<le> 2 powi (binade x)"
    by (intro power_int_increasing) auto
  ultimately show ?thesis by linarith
qed

lemma ulp_split: "e' \<le> e \<Longrightarrow> (2::real) powi e = of_int (2 ^ nat (e - e')) * 2 powi e'"
proof -
  assume "e' \<le> e"
  then have "(2::real) powi e = 2 powi (int (nat (e - e')) + e')" by simp
  also have "\<dots> = 2 powi (int (nat (e - e'))) * 2 powi e'"
    by (subst power_int_add) auto
  also have "(2::real) powi (int (nat (e - e'))) = of_int (2 ^ nat (e - e'))"
    by (simp only: power_int_of_nat) simp
  finally show ?thesis .
qed

lemma roundDouble_Fin:
  "roundDouble x = Fin v \<longleftrightarrow>
     v = of_int (roundEven (x / 2 powi (binade x - 52))) * 2 powi (binade x - 52)
     \<and> \<bar>v\<bar> < 2 powi 1024"
  by (auto simp add: roundDouble_def Let_def)

lemma double_lattice:
  assumes "roundDouble x = Fin v"
  shows "\<exists>k::int. v = of_int k * 2 powi (- 1074)"
proof -
  from assms have v: "v = of_int (roundEven (x / 2 powi (binade x - 52))) * 2 powi (binade x - 52)"
    by (simp add: roundDouble_Fin)
  have "- 1074 \<le> binade x - 52" using binade_bounds [of x] by simp
  from ulp_split [OF this] v
  have "v = of_int (roundEven (x / 2 powi (binade x - 52)) * 2 ^ nat (binade x - 52 - - 1074)) * 2 powi (- 1074)"
    by simp
  then show ?thesis by blast
qed

lemma roundDouble_le_double:
  assumes m: "roundDouble m = Fin m" and y: "0 \<le> y" "y \<le> m"
  shows "\<exists>v. roundDouble y = Fin v \<and> 0 \<le> v \<and> v \<le> m"
proof -
  let ?q = "(2::real) powi (binade y - 52)"
  let ?v = "of_int (roundEven (y / ?q)) * ?q"
  have q: "0 < ?q" by (rule ulp_pos)
  from m have mv: "m = of_int (roundEven (m / 2 powi (binade m - 52))) * 2 powi (binade m - 52)"
    and ml: "\<bar>m\<bar> < 2 powi 1024" by (simp_all add: roundDouble_Fin)
  have "binade y \<le> binade m" using y by (intro binade_mono) simp
  then have "binade y - 52 \<le> binade m - 52" by simp
  from ulp_split [OF this] mv
  obtain N :: int where N: "m = of_int N * ?q"
    by (metis (no_types, opaque_lifting) mult.assoc of_int_mult)
  have "y / ?q \<le> of_int N" using y(2) N q by (simp add: field_simps)
  then have "roundEven (y / ?q) \<le> N" by (rule roundEven_le_int)
  then have "(of_int (roundEven (y / ?q)) :: real) \<le> of_int N" by simp
  then have le: "?v \<le> m" unfolding N using q by (simp add: mult_right_mono)
  have "(of_int 0 :: real) \<le> y / ?q" using y(1) q by simp
  then have "0 \<le> roundEven (y / ?q)" by (rule roundEven_ge_int)
  then have ge: "0 \<le> ?v" using q by simp
  have "\<bar>?v\<bar> < 2 powi 1024" using ge le ml by simp
  then have "roundDouble y = Fin ?v" by (simp add: roundDouble_Fin)
  with ge le show ?thesis by blast
qed

lemma roundDouble_pos:
  assumes "2 powi (- 1074) \<le> y" and "roundDouble y = Fin v"
  shows "0 < v"
proof -
  let ?q = "(2::real) powi (binade y - 52)"
  have q: "0 < ?q" by (rule ulp_pos)
  have "0 < (2::real) powi (- 1074)" by (rule ulp_pos)
  with assms(1) have y0: "0 < y" by linarith
  with assms(1) have "2 powi (- 1074) \<le> \<bar>y\<bar>" by simp
  from ulp_le [OF this] y0 have "?q \<le> y" by simp
  then have "(of_int 1 :: real) \<le> y / ?q" using q by (simp add: field_simps)
  then have "1 \<le> roundEven (y / ?q)" by (rule roundEven_ge_int)
  then have "(1::real) \<le> of_int (roundEven (y / ?q))" by linarith
  then have "?q \<le> of_int (roundEven (y / ?q)) * ?q" using q by simp
  moreover from assms(2) have "v = of_int (roundEven (y / ?q)) * ?q" by (simp add: roundDouble_Fin)
  ultimately show ?thesis using q by linarith
qed

lemma roundDouble_finite:
  assumes "\<bar>x\<bar> < 2 powi 1023"
  shows "\<exists>v. roundDouble x = Fin v \<and> (0 \<le> x \<longrightarrow> 0 \<le> v)"
proof -
  let ?q = "(2::real) powi (binade x - 52)"
  let ?v = "of_int (roundEven (x / ?q)) * ?q"
  have q: "0 < ?q" by (rule ulp_pos)
  have e: "binade x < 1023"
  proof (rule ccontr)
    assume "\<not> binade x < 1023"
    with binade_bounds [of x] have eq: "binade x = 1023" by simp
    then have "- 1022 < binade x" by simp
    from binade_gt [OF this] eq assms show False by simp
  qed
  from binade_upper [OF e] have up: "\<bar>x\<bar> < 2 powi (binade x + 1)" .
  have split: "(2::real) powi (binade x + 1) = of_int (2 ^ 53) * ?q"
    using ulp_split [of "binade x - 52" "binade x + 1"] by simp
  have "x / ?q \<le> of_int (2 ^ 53)" using up q unfolding split by (simp add: field_simps)
  then have hi: "roundEven (x / ?q) \<le> 2 ^ 53" by (rule roundEven_le_int)
  have "of_int (- (2 ^ 53)) \<le> x / ?q" using up q unfolding split by (simp add: field_simps)
  then have lo: "- (2 ^ 53) \<le> roundEven (x / ?q)" by (rule roundEven_ge_int)
  from hi lo have "\<bar>(of_int (roundEven (x / ?q)) :: real)\<bar> \<le> of_int (2 ^ 53)" by linarith
  then have "\<bar>?v\<bar> \<le> of_int (2 ^ 53) * ?q" using q by (simp add: abs_mult mult_right_mono)
  also have "\<dots> = 2 powi (binade x + 1)" by (simp only: split)
  also have "\<dots> \<le> 2 powi 1023" using e by (intro power_int_increasing) auto
  also have "\<dots> < (2::real) powi 1024" by (intro power_int_strict_increasing) auto
  finally have fin: "roundDouble x = Fin ?v" by (simp add: roundDouble_Fin)
  have "0 \<le> x \<longrightarrow> 0 \<le> ?v"
  proof
    assume "0 \<le> x"
    then have "(of_int 0 :: real) \<le> x / ?q" using q by simp
    then have "0 \<le> roundEven (x / ?q)" by (rule roundEven_ge_int)
    then show "0 \<le> ?v" using q by simp
  qed
  with fin show ?thesis by blast
qed

lemma roundDouble_zero [simp]: "roundDouble 0 = Fin 0"
  by (simp add: roundDouble_def roundEven_def)

lemma roundDouble_nonneg:
  assumes "0 \<le> x"
  shows "(\<exists>v. roundDouble x = Fin v \<and> 0 \<le> v) \<or> roundDouble x = PInf"
proof -
  let ?q = "(2::real) powi (binade x - 52)"
  have q: "0 < ?q" by (rule ulp_pos)
  have "(of_int 0 :: real) \<le> x / ?q" using assms q by simp
  then have r: "0 \<le> roundEven (x / ?q)" by (rule roundEven_ge_int)
  then have v: "0 \<le> of_int (roundEven (x / ?q)) * ?q" using q by simp
  show ?thesis
  proof (cases "x = 0")
    case True
    then show ?thesis by simp
  next
    case False
    with assms have "0 < x" by simp
    then show ?thesis using v by (simp add: roundDouble_def Let_def)
  qed
qed

lemma roundDouble_eval:
  assumes "- 1022 \<le> e" "e \<le> 1023" "e = - 1022 \<or> 2 powi e \<le> \<bar>x\<bar>" "\<bar>x\<bar> < 2 powi (e + 1) \<or> e = 1023"
  shows "roundDouble x =
     (let q = 2 powi (e - 52); v = of_int (roundEven (x / q)) * q
      in if 2 powi 1024 \<le> \<bar>v\<bar> then (if 0 < x then PInf else NInf) else Fin v)"
proof -
  have "binade x = e" unfolding binade_def using assms by (intro binadeUp_eq) auto
  then show ?thesis by (simp add: roundDouble_def)
qed

lemma roundDouble_exact:
  assumes x: "x = of_int k * 2 powi j" and k: "\<bar>k\<bar> < 2 ^ 53" and j: "- 1074 \<le> j"
    and lim: "\<bar>x\<bar> < 2 powi 1024"
  shows "roundDouble x = Fin x"
proof -
  let ?q = "(2::real) powi (binade x - 52)"
  have q: "0 < ?q" by (rule ulp_pos)
  have p: "0 < (2::real) powi j" by (rule ulp_pos)
  have "\<bar>x\<bar> = of_int \<bar>k\<bar> * 2 powi j" unfolding x using p by (simp add: abs_mult)
  also have "\<dots> < of_int (2 ^ 53) * 2 powi j" using k p by (intro mult_strict_right_mono) simp_all
  also have "\<dots> = 2 powi (j + 53)" using ulp_split [of j "j + 53"] by simp
  finally have lt: "\<bar>x\<bar> < 2 powi (j + 53)" .
  have le: "binade x - 52 \<le> j"
  proof (rule ccontr)
    assume "\<not> binade x - 52 \<le> j"
    then have gt: "j + 53 \<le> binade x" by simp
    with j have "- 1022 < binade x" by simp
    from binade_gt [OF this] have "2 powi (binade x) \<le> \<bar>x\<bar>" .
    moreover have "(2::real) powi (j + 53) \<le> 2 powi (binade x)"
      using gt by (intro power_int_increasing) auto
    ultimately show False using lt by linarith
  qed
  from ulp_split [OF le] have "x = of_int (k * 2 ^ nat (j - (binade x - 52))) * ?q"
    unfolding x by simp
  then obtain N :: int where N: "x = of_int N * ?q" by blast
  from N have "x / ?q = of_int N * ?q / ?q" by (rule arg_cong [where f = "\<lambda>t. t / ?q"])
  also have "\<dots> = of_int N" using q by simp
  finally have "x / ?q = of_int N" .
  then have "roundEven (x / ?q) = N" by simp
  then have "of_int (roundEven (x / ?q)) * ?q = of_int N * ?q" by simp
  also have "\<dots> = x" by (rule N [symmetric])
  finally have "of_int (roundEven (x / ?q)) * ?q = x" .
  then show ?thesis using lim by (simp add: roundDouble_Fin)
qed

text \<open>What rounding returns is a double: rounding it again changes nothing.\<close>

lemma roundDouble_idem:
  assumes "roundDouble x = Fin v"
  shows "roundDouble v = Fin v"
proof -
  let ?q = "(2::real) powi (binade x - 52)"
  let ?k = "roundEven (x / ?q)"
  have q: "0 < ?q" by (rule ulp_pos)
  from assms have v: "v = of_int ?k * ?q" and lim: "\<bar>v\<bar> < 2 powi 1024"
    unfolding roundDouble_Fin by blast+
  have j: "- 1074 \<le> binade x - 52" using binade_bounds [of x] by simp
  have split: "(2::real) powi (binade x + 1) = of_int (2 ^ 53) * ?q"
    using ulp_split [of "binade x - 52" "binade x + 1"] by simp
  have k: "\<bar>?k\<bar> \<le> 2 ^ 53"
  proof (cases "binade x < 1023")
    case True
    from binade_upper [OF True] have up: "\<bar>x\<bar> < 2 powi (binade x + 1)" .
    have "x / ?q \<le> of_int (2 ^ 53)" using up q unfolding split by (simp add: field_simps)
    then have hi: "?k \<le> 2 ^ 53" by (rule roundEven_le_int)
    have "of_int (- (2 ^ 53)) \<le> x / ?q" using up q unfolding split by (simp add: field_simps)
    then have lo: "- (2 ^ 53) \<le> ?k" by (rule roundEven_ge_int)
    from hi lo show ?thesis by linarith
  next
    case False
    with binade_bounds [of x] have e: "binade x = 1023" by simp
    have "\<bar>v\<bar> = of_int \<bar>?k\<bar> * ?q" unfolding v using q by (simp add: abs_mult)
    with lim have "of_int \<bar>?k\<bar> * ?q < 2 powi 1024" by simp
    also have "(2::real) powi 1024 = of_int (2 ^ 53) * ?q" using split unfolding e by simp
    finally have "(of_int \<bar>?k\<bar> :: real) < of_int (2 ^ 53)" using q by simp
    then have "\<bar>?k\<bar> < 2 ^ 53" by (simp only: of_int_less_iff)
    then show ?thesis by simp
  qed
  show ?thesis
  proof (cases "\<bar>?k\<bar> < 2 ^ 53")
    case True
    from roundDouble_exact [OF v True j lim] show ?thesis .
  next
    case False
    with k have eq: "\<bar>?k\<bar> = 2 ^ 53" by simp
    then have "?k = 2 ^ 53 \<or> ?k = - (2 ^ 53)" by linarith
    then have pm: "v = of_int 1 * 2 powi (binade x + 1) \<or> v = of_int (- 1) * 2 powi (binade x + 1)"
      unfolding v split by auto
    have j': "- 1074 \<le> binade x + 1" using j by simp
    have one: "\<bar>1 :: int\<bar> < 2 ^ 53" "\<bar>- 1 :: int\<bar> < 2 ^ 53" by simp_all
    from pm show ?thesis
    proof
      assume "v = of_int 1 * 2 powi (binade x + 1)"
      from roundDouble_exact [OF this one(1) j' lim] show ?thesis .
    next
      assume "v = of_int (- 1) * 2 powi (binade x + 1)"
      from roundDouble_exact [OF this one(2) j' lim] show ?thesis .
    qed
  qed
qed

text \<open>The amount gathered and the amount left, in doubles.\<close>

lemma gathered_amount:
  assumes r: "0 \<le> r" "r * real n < 2 ^ 1023" and d: "0 \<le> d" and m: "0 \<le> m" "roundDouble m = Fin m"
  shows "\<exists>g. Math_min (rounded (rounded (rounded (Fin r * num n) * Fin d) / Fin 1000)) (Fin m) = Fin g
           \<and> 0 \<le> g \<and> g \<le> m \<and> roundDouble g = Fin g"
proof -
  have "\<bar>r * real n\<bar> < 2 powi 1023" using r by simp
  from roundDouble_finite [OF this] r(1) obtain v1 where v1: "roundDouble (r * real n) = Fin v1" "0 \<le> v1"
    by auto
  have p1: "rounded (Fin r * num n) = Fin v1" using v1(1) by (simp add: num_def)
  have "0 \<le> v1 * d" using v1(2) d by simp
  from roundDouble_nonneg [OF this]
  consider v2 where "roundDouble (v1 * d) = Fin v2" "0 \<le> v2" | "roundDouble (v1 * d) = PInf" by blast
  then have "rounded (rounded (Fin v1 * Fin d) / Fin 1000) = PInf
      \<or> (\<exists>v3 x. rounded (rounded (Fin v1 * Fin d) / Fin 1000) = Fin v3 \<and> 0 \<le> v3 \<and> roundDouble x = Fin v3)"
  proof cases
    case 1
    have "0 \<le> v2 / 1000" using 1(2) by simp
    from roundDouble_nonneg [OF this] 1(1) show ?thesis by auto
  next
    case 2
    then show ?thesis by simp
  qed
  then show ?thesis
  proof
    assume "rounded (rounded (Fin v1 * Fin d) / Fin 1000) = PInf"
    then show ?thesis using m unfolding p1 by auto
  next
    assume "\<exists>v3 x. rounded (rounded (Fin v1 * Fin d) / Fin 1000) = Fin v3 \<and> 0 \<le> v3 \<and> roundDouble x = Fin v3"
    then obtain v3 x where v3: "rounded (rounded (Fin v1 * Fin d) / Fin 1000) = Fin v3" "0 \<le> v3"
      "roundDouble x = Fin v3" by blast
    from roundDouble_idem [OF v3(3)] m(2) have "roundDouble (min v3 m) = Fin (min v3 m)"
      by (cases "v3 \<le> m") (simp_all add: min_def)
    then show ?thesis using v3(1,2) m(1) unfolding p1 by auto
  qed
qed

lemma remaining_after:
  assumes m: "roundDouble m = Fin m" and g: "0 \<le> g" "g \<le> m" "roundDouble g = Fin g"
  shows "\<exists>m'. rounded (Fin m - Fin g) = Fin m' \<and> 0 \<le> m' \<and> m' \<le> m \<and> (m' = 0 \<longleftrightarrow> g = m)
           \<and> roundDouble m' = Fin m'"
proof -
  have "0 \<le> m - g" "m - g \<le> m" using g by simp_all
  from roundDouble_le_double [OF m this]
  obtain m' where m': "roundDouble (m - g) = Fin m'" "0 \<le> m'" "m' \<le> m" by blast
  have "m' = 0 \<longleftrightarrow> g = m"
  proof
    assume "g = m"
    with m'(1) show "m' = 0" by simp
  next
    assume zero: "m' = 0"
    show "g = m"
    proof (rule ccontr)
      assume "g \<noteq> m"
      with g have pos: "0 < m - g" by simp
      from double_lattice [OF m] obtain km :: int where km: "m = of_int km * 2 powi (- 1074)" ..
      from double_lattice [OF g(3)] obtain kg :: int where kg: "g = of_int kg * 2 powi (- 1074)" ..
      have u: "0 < (2::real) powi (- 1074)" by (rule ulp_pos)
      have diff: "m - g = of_int (km - kg) * 2 powi (- 1074)" unfolding km kg by (simp add: algebra_simps)
      with pos u have "0 < (of_int (km - kg) :: real)" by (simp add: zero_less_mult_iff)
      then have "1 \<le> km - kg" by simp
      then have "(1::real) \<le> of_int (km - kg)" by linarith
      then have "2 powi (- 1074) \<le> m - g" unfolding diff using u by simp
      from roundDouble_pos [OF this m'(1)] zero show False by simp
    qed
  qed
  with m' roundDouble_idem [OF m'(1)] show ?thesis by auto
qed

text \<open>
  C3. \<open>gatherResources\<close> on a zone with a non-negative rate, a non-negative remaining
  amount \<open>m\<close> (a double) and a non-negative \<open>deltaTime\<close> (in milliseconds;
  \<open>dt = deltaTime / 1000\<close> seconds) returns
  \<open>g = min (gatheringRate * workerCount * deltaTime / 1000) m\<close> and leaves \<open>m - g\<close>, the
  products, the quotient and the difference being those of doubles, each rounded to the
  nearest double. Whatever the rounding, \<open>0 \<le> g \<le> m\<close>, the amount left is not negative and
  not more than \<open>m\<close>, and it is zero exactly when \<open>g = m\<close>; in the step in which it reaches
  zero the zone is marked exhausted and its worker list is emptied. The rate times the
  number of workers is taken to be below \<open>2^1023\<close> (so that the first product is finite).
  An exhausted zone has no workers (exhaustion empties the list and \<open>assignWorkerToZone\<close>
  refuses an exhausted zone), which is the last hypothesis. The hypotheses hold again
  for the zone as the call leaves it (the amount left is a double, the rate is the same,
  there are no more workers than before), so all this holds at every tick.
\<close>

theorem gatherResources_extraction:
  assumes zone: "mapGet zoneId (resourceZones tm) = Some z"
    and rate: "zone_gatheringRate z = Fin r" "0 \<le> r" "r * real (length (zone_workersAssigned z)) < 2 ^ 1023"
    and remaining: "zone_remainingResources z = Fin m" "0 \<le> m" "roundDouble m = Fin m"
    and dt: "0 \<le> d"
    and inv: "zone_isExhausted z \<longrightarrow> zone_workersAssigned z = []"
  shows "\<exists>tm' z' g m'.
           gatherResources zoneId (Fin d) tm = (Fin g, tm')
         \<and> Fin g = Math_min
                     (rounded (rounded (rounded (Fin r * num (length (zone_workersAssigned z))) * Fin d)
                        / Fin 1000))
                     (Fin m)
         \<and> mapGet zoneId (resourceZones tm') = Some z'
         \<and> zone_remainingResources z' = Fin m'
         \<and> Fin m' = rounded (Fin m - Fin g)
         \<and> 0 \<le> g \<and> g \<le> m \<and> 0 \<le> m' \<and> m' \<le> m
         \<and> (m' = 0 \<longleftrightarrow> g = m)
         \<and> (0 < m \<and> m' = 0 \<longrightarrow> zone_isExhausted z' \<and> zone_workersAssigned z' = [])
         \<and> roundDouble m' = Fin m'
         \<and> zone_gatheringRate z' = Fin r
         \<and> length (zone_workersAssigned z') \<le> length (zone_workersAssigned z)
         \<and> (zone_isExhausted z' \<longrightarrow> zone_workersAssigned z' = [])"
proof -
  let ?n = "length (zone_workersAssigned z)"
  from gathered_amount [OF rate(2,3) dt remaining(2,3)]
  obtain g where g: "Math_min (rounded (rounded (rounded (Fin r * num ?n) * Fin d) / Fin 1000)) (Fin m) = Fin g"
    "0 \<le> g" "g \<le> m" "roundDouble g = Fin g" by blast
  from remaining_after [OF remaining(3) g(2,3,4)]
  obtain m' where m': "rounded (Fin m - Fin g) = Fin m'" "0 \<le> m'" "m' \<le> m" "m' = 0 \<longleftrightarrow> g = m"
    "roundDouble m' = Fin m'" by blast
  show ?thesis
  proof (cases "zone_isExhausted z \<or> ?n = 0")
    case True
    with inv have nil: "zone_workersAssigned z = []" by auto
    have res: "gatherResources zoneId (Fin d) tm = (Fin 0, tm)"
      using zone True by (simp add: gatherResources_def)
    have g0: "g = 0" using g(1) remaining(2) nil by (auto simp add: num_def split: if_splits)
    then have mm: "m' = m" using m'(1) remaining(3) by simp
    have vac: "0 < m \<and> m' = 0 \<longrightarrow> zone_isExhausted z \<and> zone_workersAssigned z = []"
      unfolding mm by auto
    have len: "length (zone_workersAssigned z) \<le> length (zone_workersAssigned z)" by simp
    from res [unfolded g0 [symmetric]] g(1) [symmetric] zone remaining(1) [unfolded mm [symmetric]]
      m'(1) [symmetric] g(2,3) m'(2,3,4) vac m'(5) rate(1) len inv
    show ?thesis by blast
  next
    case False
    let ?z1 = "z\<lparr>zone_remainingResources := Fin m'\<rparr>"
    let ?z2 = "if m' \<le> 0 then ?z1\<lparr>zone_isExhausted := True, zone_workersAssigned := []\<rparr> else ?z1"
    let ?tm' = "tm\<lparr>resourceZones := mapSet zoneId ?z2 (resourceZones tm)\<rparr>"
    have res: "gatherResources zoneId (Fin d) tm = (Fin g, ?tm')"
      using zone False rate(1) remaining(1) g(1) m'(1)
      by (simp add: gatherResources_def Let_def del: Math_min.simps rounded.simps)
    have get: "mapGet zoneId (resourceZones ?tm') = Some ?z2" by (simp add: mapGet_mapSet_same)
    have rem: "zone_remainingResources ?z2 = Fin m'" by simp
    have ex: "0 < m \<and> m' = 0 \<longrightarrow> zone_isExhausted ?z2 \<and> zone_workersAssigned ?z2 = []" by simp
    have rt: "zone_gatheringRate ?z2 = Fin r" using rate(1) by simp
    have len: "length (zone_workersAssigned ?z2) \<le> length (zone_workersAssigned z)" by simp
    have inv': "zone_isExhausted ?z2 \<longrightarrow> zone_workersAssigned ?z2 = []" using False by simp
    from res g(1) [symmetric] get rem m'(1) [symmetric] g(2,3) m'(2,3,4) ex m'(5) rt len inv'
    show ?thesis by blast
  qed
qed

text \<open>A zone whose amounts are fractions: the rate is the double nearest to \<open>0.1\<close>, three
  workers, 1000 ms, \<open>0.30000000000000004\<close> left. The three roundings give
  \<open>0.30000000000000004\<close> again, all that is left: the zone is exhausted in this step.\<close>

lemma tenth_times_three:
  "rounded (Fin (3602879701896397 / 36028797018963968) * num 3)
     = Fin (1351079888211149 / 4503599627370496)"
proof -
  have "roundDouble (10808639105689191 / 36028797018963968) = Fin (1351079888211149 / 4503599627370496)"
    by (subst roundDouble_eval [of "- 2"]) (simp_all add: roundEven_def Let_def)
  then show ?thesis by (simp add: num_def)
qed

lemma times_thousand:
  "rounded (Fin (1351079888211149 / 4503599627370496) * Fin 1000)
     = Fin (5277655813324801 / 17592186044416)"
proof -
  have "roundDouble (168884986026393625 / 562949953421312) = Fin (5277655813324801 / 17592186044416)"
    by (subst roundDouble_eval [of 8]) (simp_all add: roundEven_def Let_def)
  then show ?thesis by simp
qed

lemma over_thousand:
  "rounded (Fin (5277655813324801 / 17592186044416) / Fin 1000)
     = Fin (1351079888211149 / 4503599627370496)"
proof -
  have "roundDouble (5277655813324801 / 17592186044416000) = Fin (1351079888211149 / 4503599627370496)"
    by (subst roundDouble_eval [of "- 2"]) (simp_all add: roundEven_def Let_def)
  then show ?thesis by simp
qed

lemma remaining_is_double:
  "roundDouble (1351079888211149 / 4503599627370496) = Fin (1351079888211149 / 4503599627370496)"
  by (rule roundDouble_exact [of _ 1351079888211149 "- 52"]) simp_all

theorem gatherResources_extraction_witness:
  "\<exists>tm' z'. gatherResources ''steel_0'' (Fin 1000) tenthTerrain
                = (Fin (1351079888211149 / 4503599627370496), tm')
     \<and> mapGet ''steel_0'' (resourceZones tm') = Some z'
     \<and> zone_remainingResources z' = Fin 0
     \<and> zone_isExhausted z' \<and> zone_workersAssigned z' = []"
proof -
  have z: "mapGet ''steel_0'' (resourceZones tenthTerrain) = Some tenthZone"
    by (simp add: tenthTerrain_def)
  have inv: "zone_isExhausted tenthZone \<longrightarrow> zone_workersAssigned tenthZone = []"
    by (simp add: tenthZone_def)
  have rate: "zone_gatheringRate tenthZone = Fin (3602879701896397 / 36028797018963968)"
    and rem: "zone_remainingResources tenthZone = Fin (1351079888211149 / 4503599627370496)"
    and n: "length (zone_workersAssigned tenthZone) = 3"
    by (simp_all add: tenthZone_def)
  have small: "3602879701896397 / 36028797018963968 * real (length (zone_workersAssigned tenthZone)) < 2 ^ 1023"
    unfolding n by simp
  have r0: "0 \<le> (3602879701896397 / 36028797018963968 :: real)"
    and m0: "0 \<le> (1351079888211149 / 4503599627370496 :: real)"
    and d0: "0 \<le> (1000 :: real)" by simp_all
  from gatherResources_extraction [OF z rate r0 small rem m0 remaining_is_double d0 inv]
  obtain tm' z' g m' where r:
    "gatherResources ''steel_0'' (Fin 1000) tenthTerrain = (Fin g, tm')"
    "Fin g = Math_min
               (rounded (rounded (rounded (Fin (3602879701896397 / 36028797018963968)
                  * num (length (zone_workersAssigned tenthZone))) * Fin 1000) / Fin 1000))
               (Fin (1351079888211149 / 4503599627370496))"
    "mapGet ''steel_0'' (resourceZones tm') = Some z'"
    "zone_remainingResources z' = Fin m'"
    "m' = 0 \<longleftrightarrow> g = 1351079888211149 / 4503599627370496"
    "0 < (1351079888211149 / 4503599627370496 :: real) \<and> m' = 0
       \<longrightarrow> zone_isExhausted z' \<and> zone_workersAssigned z' = []"
    apply (elim exE conjE)
    apply (rule that)
    apply assumption+
    done
  have g: "g = 1351079888211149 / 4503599627370496"
    using r(2) unfolding n tenth_times_three times_thousand over_thousand by simp
  with r(5) have m': "m' = 0" by blast
  have "0 < (1351079888211149 / 4503599627370496 :: real)" by simp
  with r(6) m' have "zone_isExhausted z' \<and> zone_workersAssigned z' = []" by blast
  with r(1,3,4) show ?thesis unfolding g m' by blast
qed

text \<open>What \<open>assignWorkerToZone\<close> does: it adds the worker exactly when the zone exists, is
  not exhausted and holds fewer than 5 workers, and then appends the id to the list. In every
  other case it returns false and changes nothing.\<close>

lemma assignWorkerToZone_gate:
  "(case mapGet zoneId (resourceZones tm) of
      None \<Rightarrow> assignWorkerToZone workerId zoneId tm = (False, tm)
    | Some z \<Rightarrow>
        if \<not> zone_isExhausted z \<and> length (zone_workersAssigned z) < 5
        then fst (assignWorkerToZone workerId zoneId tm) = True
           \<and> map_option zone_workersAssigned
                 (mapGet zoneId (resourceZones (snd (assignWorkerToZone workerId zoneId tm))))
               = Some (zone_workersAssigned z @ [workerId])
        else assignWorkerToZone workerId zoneId tm = (False, tm))"
  by (simp add: assignWorkerToZone_def mapGet_mapSet_same split: option.split)

text \<open>
  C5 fails on the code. \<open>assignWorkerToZone\<close> does not look whether the worker is in the
  list already: assigning \<open>w1\<close>, a worker of zone \<open>oil_0\<close>, once more returns true and makes
  the list hold it twice. The same call on the node of \<open>ResourceManager\<close>, whose
  \<open>assignWorkerToNode\<close> has the check, returns false and changes nothing.
\<close>

theorem assignWorkerToZone_not_idempotent:
  "fst (assignWorkerToZone ''w1'' ''oil_0'' exampleTerrain) = True
   \<and> map_option zone_workersAssigned (mapGet ''oil_0'' (resourceZones exampleTerrain)) = Some [''w1'']
   \<and> map_option zone_workersAssigned
        (mapGet ''oil_0'' (resourceZones (snd (assignWorkerToZone ''w1'' ''oil_0'' exampleTerrain))))
      = Some [''w1'', ''w1'']
   \<and> assignWorkerToNode ''w1'' ''oil_node_0'' exampleManager = (False, exampleManager)"
  by (simp add: assignWorkerToZone_def exampleTerrain_def exampleZone_def
      assignWorkerToNode_def exampleManager_def exampleNode_def num_def)

subsection \<open>Strategic phase\<close>

text \<open>
  C9. The phase that \<open>updateStrategicState\<close> leaves is a function of the number of
  the faction's units and buildings alone (the previous phase plays no part): 2 units
  and 1 building give \<open>early\<close>, 12 units and 4 buildings give \<open>mid\<close>.
\<close>

theorem phase_is_function_of_counts:
  "phase (updateStrategicState myUnits myBuildings enemyUnits pl st)
     = (if length myUnits < 10 \<and> length myBuildings < 3 then early
        else if length myUnits < 25 \<and> length myBuildings < 6 then mid else late)
   \<and> (length myUnits = 2 \<and> length myBuildings = 1
        \<longrightarrow> phase (updateStrategicState myUnits myBuildings enemyUnits pl st) = early)
   \<and> (length myUnits = 12 \<and> length myBuildings = 4
        \<longrightarrow> phase (updateStrategicState myUnits myBuildings enemyUnits pl st) = mid)"
  by (simp add: updateStrategicState_def Let_def)

theorem phase_is_function_of_counts_witness:
  "length (replicate 2 (exampleUnit ''u'' \<lparr>posX = Fin 5, posY = Fin 5\<rparr>)) = 2
   \<and> length [exampleBuilding ''b'' command_center \<lparr>posX = Fin 5, posY = Fin 5\<rparr>] = 1
   \<and> phase (updateStrategicState
               (replicate 2 (exampleUnit ''u'' \<lparr>posX = Fin 5, posY = Fin 5\<rparr>))
               [exampleBuilding ''b'' command_center \<lparr>posX = Fin 5, posY = Fin 5\<rparr>]
               [] () initializeStrategicState) = early
   \<and> length (replicate 12 (exampleUnit ''u'' \<lparr>posX = Fin 5, posY = Fin 5\<rparr>)) = 12
   \<and> length (replicate 4 (exampleBuilding ''b'' command_center \<lparr>posX = Fin 5, posY = Fin 5\<rparr>)) = 4
   \<and> phase (updateStrategicState
               (replicate 12 (exampleUnit ''u'' \<lparr>posX = Fin 5, posY = Fin 5\<rparr>))
               (replicate 4 (exampleBuilding ''b'' command_center \<lparr>posX = Fin 5, posY = Fin 5\<rparr>))
               [] () (initializeStrategicState\<lparr>phase := late\<rparr>)) = mid"
  using phase_is_function_of_counts
          [of "replicate 2 (exampleUnit ''u'' \<lparr>posX = Fin 5, posY = Fin 5\<rparr>)"
              "[exampleBuilding ''b'' command_center \<lparr>posX = Fin 5, posY = Fin 5\<rparr>]"
              "[]" "()" initializeStrategicState]
        phase_is_function_of_counts
          [of "replicate 12 (exampleUnit ''u'' \<lparr>posX = Fin 5, posY = Fin 5\<rparr>)"
              "replicate 4 (exampleBuilding ''b'' command_center \<lparr>posX = Fin 5, posY = Fin 5\<rparr>)"
              "[]" "()" "initializeStrategicState\<lparr>phase := late\<rparr>"]
  by simp

subsection \<open>Formations\<close>

lemma calculateFormation_finite:
  "role \<noteq> RoleDefend \<or> n \<noteq> 1 \<Longrightarrow> p \<in> set (calculateFormation n role)
    \<Longrightarrow> isFinite (posX p) \<and> isFinite (posY p)"
  by (cases role) (auto simp add: calculateFormation_def num_def Let_def)

text \<open>
  C10. A group created with role defend and one member gets the formation table
  \<open>[(NaN, NaN)]\<close>: the angle divides \<open>0\<close> by \<open>unitCount - 1 = 0\<close>. For every other
  role, and for a defend group of any other size, every offset of the table is finite.
  \<open>createCombatGroup\<close> stores \<open>calculateFormation (length unitIds) role\<close>.
\<close>

theorem formation_nonfinite_only_for_single_defender:
  "(case createCombatGroup [u] RoleDefend target rnd w of
      (groupId, w') \<Rightarrow>
        map_option grp_formation (mapGet groupId (combatGroups w'))
          = Some [\<lparr>posX = NaN, posY = NaN\<rparr>])
   \<and> (case createCombatGroup unitIds role target rnd w of
        (groupId, w') \<Rightarrow>
          map_option grp_formation (mapGet groupId (combatGroups w'))
            = Some (calculateFormation (length unitIds) role))
   \<and> (role \<noteq> RoleDefend \<or> length unitIds \<noteq> 1
        \<longrightarrow> (\<forall>p \<in> set (calculateFormation (length unitIds) role).
               isFinite (posX p) \<and> isFinite (posY p)))"
proof -
  have single: "calculateFormation (length [u]) RoleDefend = [\<lparr>posX = NaN, posY = NaN\<rparr>]"
    by (simp add: calculateFormation_def num_def)
  have stored: "\<And>ids r. (case createCombatGroup ids r target rnd w of
      (groupId, w') \<Rightarrow>
        map_option grp_formation (mapGet groupId (combatGroups w'))
          = Some (calculateFormation (length ids) r))"
    by (simp add: createCombatGroup_def Let_def mapGet_mapSet_same split: prod.split)
  have finite: "role \<noteq> RoleDefend \<or> length unitIds \<noteq> 1
        \<longrightarrow> (\<forall>p \<in> set (calculateFormation (length unitIds) role).
               isFinite (posX p) \<and> isFinite (posY p))"
    using calculateFormation_finite by blast
  from stored [of "[u]" RoleDefend] have "case createCombatGroup [u] RoleDefend target rnd w of
      (groupId, w') \<Rightarrow>
        map_option grp_formation (mapGet groupId (combatGroups w'))
          = Some [\<lparr>posX = NaN, posY = NaN\<rparr>]"
    unfolding single .
  with stored [of unitIds role] finite show ?thesis
    by blast
qed

theorem formation_nonfinite_only_for_single_defender_witness:
  "length [''u1'', ''u2''] = 2
   \<and> list_all (\<lambda>p. isFinite (posX p) \<and> isFinite (posY p))
        (calculateFormation (length [''u1'', ''u2'']) RoleDefend)
   \<and> calculateFormation (length [''u1'', ''u2'']) RoleDefend
       = [\<lparr>posX = Fin 0, posY = Fin (- 2)\<rparr>, \<lparr>posX = Fin 0, posY = Fin 2\<rparr>]"
proof -
  have "calculateFormation (length [''u1'', ''u2'']) RoleDefend
       = [\<lparr>posX = Fin 0, posY = Fin (- 2)\<rparr>, \<lparr>posX = Fin 0, posY = Fin 2\<rparr>]"
    by (simp add: calculateFormation_def num_def upt_rec numeral_2_eq_2)
  with formation_nonfinite_only_for_single_defender
         [of "''u''" None "''r''" "newController exampleTerrain [] 0 []" "[''u1'', ''u2'']" RoleDefend]
  show ?thesis by (simp add: list_all_iff)
qed

subsection \<open>The command table\<close>

text \<open>
  C1 fails on the code. \<open>issueCommand\<close> stores a command under the command's id, not
  under its unit's id: after \<open>moveUnit\<close> and then \<open>attackTarget\<close> for the same unit
  the table holds both commands of this unit.
\<close>

theorem issueCommand_keyed_by_command_id:
  "map cmd_id
     (commandsOf ''u1''
        (attackTarget ''u1'' ''e1'' (Fin 8)
           (moveUnit ''u1'' \<lparr>posX = Fin 3, posY = Fin 4\<rparr> (Fin 5)
              (newController exampleTerrain [] 1000 []))))
   = [''move_u1_1000'', ''attack_u1_1000'']"
  by (simp add: commandsOf_def attackTarget_def moveUnit_def issueNew_def newCommand_def
      newController_def Date_now_def issueCommand_def mapValues_def numberToString_def
      digitsOf.simps)

end
